theory Spec2Isabelle
  imports Complex_Main "HOL-Library.Log_Nat"
begin

section \<open>PropertyStore and style cascade (include/ContextNodeImpl.hpp, include/WidgetImpl.hpp)\<close>

text \<open>
  A \<open>ContextNodeImpl\<close> holds a raw pointer \<open>m_parent\<close> (null at the root) and an
  \<open>unordered_map\<close> from string to string. The parent pointer is modelled by the node it
  points to, so a node is the finite chain of maps from itself up to a root without parent:
  the tree-shaped ownership the toolkit builds (container, layout, cell, widget). A chain that
  loops back on itself is not a value of this type; on such a chain the C++ recursion of
  \<open>GetProperty\<close> would only end at a node that answers the key.

  \<open>GetProperty\<close> and \<open>SetProperty\<close> are virtual. \<open>CellImpl\<close>,
  \<open>LayoutImpl\<close>, \<open>ContainerImpl\<close> and the controller forward \<open>GetProperty\<close> to
  \<open>ContextNodeImpl::GetProperty\<close> (class \<open>ContextNode\<close> below). \<open>WidgetImpl\<close>,
  which \<open>PanelImpl\<close> and the widgets inherit, answers four keys from the state of the
  widget first: its flags \<open>m_checked\<close> and \<open>m_validated\<close> and its window. The
  window handle \<open>m_hwnd\<close> is null, or names a window that no longer exists, or names a
  window that is enabled or disabled.

  Keys and values enter the store as C strings, so they are plain character lists here.
  The value argument of \<open>SetProperty\<close> may be a null pointer and is an option.
\<close>

datatype window = NullHwnd | DeadWindow | LiveWindow bool

datatype node_class = ContextNode | WidgetImpl (m_checked: bool) (m_validated: bool) (m_hwnd: window)

datatype ContextNodeImpl =
  ContextNodeImpl (dyn: node_class) (m_parent: "ContextNodeImpl option")
    (m_properties: "string \<rightharpoonup> string")

definition SetParentNode :: "ContextNodeImpl \<Rightarrow> ContextNodeImpl option \<Rightarrow> ContextNodeImpl" where
  "SetParentNode n parent = ContextNodeImpl (dyn n) parent (m_properties n)"

text \<open>
  \<open>GetProperty\<close> is the virtual call, dispatched on the class of the node;
  \<open>ContextNodeImpl_GetProperty\<close> is \<open>ContextNodeImpl::GetProperty\<close>, whose call on
  the parent is virtual again.
\<close>

fun GetProperty :: "ContextNodeImpl \<Rightarrow> string \<Rightarrow> string \<Rightarrow> string"
  and ContextNodeImpl_GetProperty :: "ContextNodeImpl \<Rightarrow> string \<Rightarrow> string \<Rightarrow> string" where
  "GetProperty (ContextNodeImpl cls parent props) key def =
     (case cls of
        ContextNode \<Rightarrow> ContextNodeImpl_GetProperty (ContextNodeImpl cls parent props) key def
      | WidgetImpl checked validated hwnd \<Rightarrow>
          if key = ''checked'' then (if checked then ''true'' else ''false'')
          else if key = ''validated'' then (if validated then ''true'' else ''false'')
          else if hwnd \<noteq> NullHwnd \<and> key = ''enabled''
            then (if hwnd = LiveWindow True then ''true'' else ''false'')
          else if hwnd \<noteq> NullHwnd \<and> key = ''disabled''
            then (if hwnd = LiveWindow True then ''false'' else ''true'')
          else ContextNodeImpl_GetProperty (ContextNodeImpl cls parent props) key def)"
| "ContextNodeImpl_GetProperty (ContextNodeImpl cls parent props) key def =
     (case props key of
        Some v \<Rightarrow> v
      | None \<Rightarrow> (case parent of Some p \<Rightarrow> GetProperty p key def | None \<Rightarrow> def))"

text \<open>
  \<open>ContextNodeImpl::SetProperty\<close>, and \<open>WidgetImpl::SetProperty\<close> with
  \<open>WidgetImpl::OnPropertyChanged\<close> and \<open>WidgetImpl::PerformValidation\<close>. What the
  validator of the widget answers for the new value is the parameter \<open>isValid\<close>; it
  is true for a widget without validator. The widget classes of the plug-ins override
  \<open>OnPropertyChanged\<close>; the model is that of \<open>WidgetImpl\<close> itself.
\<close>

definition ContextNodeImpl_SetProperty ::
  "ContextNodeImpl \<Rightarrow> string \<Rightarrow> string option \<Rightarrow> ContextNodeImpl" where
  "ContextNodeImpl_SetProperty n key val =
     ContextNodeImpl (dyn n) (m_parent n)
       ((m_properties n)(key \<mapsto> (case val of Some v \<Rightarrow> v | None \<Rightarrow> [])))"

definition PerformValidation :: "ContextNodeImpl \<Rightarrow> bool \<Rightarrow> ContextNodeImpl" where
  "PerformValidation n isValid =
     (case dyn n of
        ContextNode \<Rightarrow> n
      | WidgetImpl checked validated hwnd \<Rightarrow>
          if validated \<noteq> isValid
            then ContextNodeImpl (WidgetImpl checked isValid hwnd) (m_parent n)
                   ((m_properties n)(''validated'' \<mapsto> (if isValid then ''true'' else ''false'')))
          else n)"

definition OnPropertyChanged :: "ContextNodeImpl \<Rightarrow> string \<Rightarrow> string \<Rightarrow> bool \<Rightarrow> ContextNodeImpl" where
  "OnPropertyChanged n k v isValid =
     (case dyn n of
        ContextNode \<Rightarrow> n
      | WidgetImpl checked validated hwnd \<Rightarrow>
          let n1 = ContextNodeImpl
                     (WidgetImpl (if k = ''checked'' then v = ''true'' else checked)
                        (if k = ''validated'' then v = ''true'' else validated)
                        hwnd)
                     (m_parent n) (m_properties n);
              n2 = (if k = ''value'' \<or> k = ''text'' then PerformValidation n1 isValid else n1)
          in case hwnd of
               LiveWindow e \<Rightarrow>
                 ContextNodeImpl
                   (WidgetImpl (m_checked (dyn n2)) (m_validated (dyn n2))
                      (LiveWindow (if k = ''enabled'' then v = ''true''
                                   else if k = ''disabled'' then v \<noteq> ''true''
                                   else e)))
                   (m_parent n2) (m_properties n2)
             | _ \<Rightarrow> n2)"

definition SetProperty :: "ContextNodeImpl \<Rightarrow> string \<Rightarrow> string option \<Rightarrow> bool \<Rightarrow> ContextNodeImpl" where
  "SetProperty n key val isValid =
     (case dyn n of
        ContextNode \<Rightarrow> ContextNodeImpl_SetProperty n key val
      | WidgetImpl checked validated hwnd \<Rightarrow>
          OnPropertyChanged (ContextNodeImpl_SetProperty n key val) key
            (case val of Some v \<Rightarrow> v | None \<Rightarrow> []) isValid)"

text \<open>The constructors: no parent, no properties, and for a widget no window yet.\<close>

definition ContextNodeImpl_new :: ContextNodeImpl where
  "ContextNodeImpl_new = ContextNodeImpl ContextNode None Map.empty"

definition WidgetImpl_new :: ContextNodeImpl where
  "WidgetImpl_new = ContextNodeImpl (WidgetImpl False True NullHwnd) None Map.empty"

definition HasProperty :: "ContextNodeImpl \<Rightarrow> string \<Rightarrow> bool" where
  "HasProperty n key = (GetProperty n key [] \<noteq> [])"

definition TryResolveState ::
  "ContextNodeImpl \<Rightarrow> string \<Rightarrow> bool \<Rightarrow> bool \<Rightarrow> bool \<Rightarrow> bool \<Rightarrow> string" where
  "TryResolveState n baseKey selected enabled hovered active =
     (if \<not> enabled \<and> HasProperty n (baseKey @ '':disabled'')
        then GetProperty n (baseKey @ '':disabled'') []
      else if hovered \<and> HasProperty n (baseKey @ '':hover'')
        then GetProperty n (baseKey @ '':hover'') []
      else if selected \<and> HasProperty n (baseKey @ '':selected'')
        then GetProperty n (baseKey @ '':selected'') []
      else if active \<and> HasProperty n (baseKey @ '':active'')
        then GetProperty n (baseKey @ '':active'') []
      else if HasProperty n baseKey
        then GetProperty n baseKey []
      else [])"

definition GetStyle ::
  "ContextNodeImpl \<Rightarrow> string \<Rightarrow> string \<Rightarrow> string \<Rightarrow> string \<Rightarrow>
     bool \<Rightarrow> bool \<Rightarrow> bool \<Rightarrow> bool \<Rightarrow> string" where
  "GetStyle n prop def classid variant selected enabled hovered active =
     (let r1 = TryResolveState n (classid @ '':'' @ variant @ '':'' @ prop)
                 selected enabled hovered active;
          r2 = TryResolveState n (classid @ '':'' @ prop) selected enabled hovered active;
          r3 = TryResolveState n prop selected enabled hovered active
      in if variant \<noteq> [] \<and> r1 \<noteq> [] then r1
         else if classid \<noteq> [] \<and> r2 \<noteq> [] then r2
         else if r3 = [] then def
         else r3)"

subsection \<open>The lookups as the specification words them\<close>



text \<open>
  A node answers a key from its state when it is a widget and the key is \<open>checked\<close>
  or \<open>validated\<close>, or \<open>enabled\<close> or \<open>disabled\<close> and the widget has a window
  handle.
\<close>

definition answers_from_state :: "ContextNodeImpl \<Rightarrow> string \<Rightarrow> bool" where
  "answers_from_state n k =
     (case dyn n of
        ContextNode \<Rightarrow> False
      | WidgetImpl checked validated hwnd \<Rightarrow>
          k = ''checked'' \<or> k = ''validated'' \<or>
          (hwnd \<noteq> NullHwnd \<and> (k = ''enabled'' \<or> k = ''disabled'')))"


definition state_keys :: "string list" where
  "state_keys = [''checked'', ''validated'', ''enabled'', ''disabled'']"

text \<open>
  The state-qualified keys of a base key that apply under the flags, in the tie-break
  order of the specification, the unqualified key last.
\<close>

definition state_suffix_keys :: "string \<Rightarrow> bool \<Rightarrow> bool \<Rightarrow> bool \<Rightarrow> bool \<Rightarrow> string list" where
  "state_suffix_keys base selected enabled hovered active =
     (if \<not> enabled then [base @ '':disabled''] else []) @
     (if hovered then [base @ '':hover''] else []) @
     (if selected then [base @ '':selected''] else []) @
     (if active then [base @ '':active''] else []) @
     [base]"

text \<open>The first key of a list that resolves to a non-empty string, and the empty string
  when none does.\<close>

definition first_nonempty :: "ContextNodeImpl \<Rightarrow> string list \<Rightarrow> string" where
  "first_nonempty n ks =
     (case find (\<lambda>k. GetProperty n k [] \<noteq> []) ks of Some k \<Rightarrow> GetProperty n k [] | None \<Rightarrow> [])"

section \<open>Numbers: binary32 arithmetic, MulDiv and DPI scaling\<close>

text \<open>
  \<open>WidgetSize::value\<close> and the intermediate results of the solver are C++ \<open>float\<close>s. A
  finite binary32 value is a rational number, and every arithmetic operation returns the
  exact result rounded to the nearest binary32 value, ties to even (\<open>f32\<close>; 24 bits of
  precision, gradual underflow below \<open>2 powi (-126)\<close>). Infinities and NaN are not
  values of the model: a division by zero and a result beyond the binary32 range are outside
  it; the theorems that divide by a variable assume it is not zero. The cast
  \<open>(int)\<close> of a float discards the fraction. For a value whose integer part does not
  fit 32 bits (\<open>cast_in_range\<close>) the cast is undefined in C++; the conversion
  instruction of x86 then gives \<open>-2147483648\<close>, and so does \<open>int_of_float\<close>.
  C++ \<open>int\<close> is modelled by unbounded integers; signed overflow is undefined in the
  source.
\<close>

type_synonym float = rat

definition round_half_even :: "rat \<Rightarrow> int" where
  "round_half_even r =
     (let f = \<lfloor>r\<rfloor>; d = r - of_int f
      in if d < 1 / 2 then f else if 1 / 2 < d then f + 1 else if even f then f else f + 1)"

text \<open>The integer part of the binary logarithm of a positive rational.\<close>

definition ilog2 :: "rat \<Rightarrow> int" where
  "ilog2 a =
     (let d = bitlen (fst (quotient_of a)) - bitlen (snd (quotient_of a))
      in if 2 powi d \<le> a then d else d - 1)"

definition f32 :: "rat \<Rightarrow> float" where
  "f32 x =
     (if x = 0 then 0
      else let e = max (ilog2 \<bar>x\<bar>) (- 126); u = 2 powi (e - 23)
           in of_int (round_half_even (x / u)) * u)"

definition float_of_int :: "int \<Rightarrow> float" where
  "float_of_int i = f32 (of_int i)"

definition float_add :: "float \<Rightarrow> float \<Rightarrow> float" where
  "float_add a b = f32 (a + b)"

definition float_mul :: "float \<Rightarrow> float \<Rightarrow> float" where
  "float_mul a b = f32 (a * b)"

definition float_div :: "float \<Rightarrow> float \<Rightarrow> float" where
  "float_div a b = f32 (a / b)"

definition float_trunc :: "float \<Rightarrow> int" where
  "float_trunc x = (if 0 \<le> x then \<lfloor>x\<rfloor> else \<lceil>x\<rceil>)"

definition cast_in_range :: "float \<Rightarrow> bool" where
  "cast_in_range x = (- 2147483648 \<le> float_trunc x \<and> float_trunc x \<le> 2147483647)"

definition int_of_float :: "float \<Rightarrow> int" where
  "int_of_float x = (if cast_in_range x then float_trunc x else - 2147483648)"

text \<open>
  Modelled from the Win32 documentation of \<open>MulDiv\<close>, which is not part of the
  repository: the 64-bit product divided by the third argument and rounded to the nearest
  integer (halves away from zero), and \<open>-1\<close> when the divisor is zero or the result does
  not fit 32 bits.
\<close>

definition MulDiv :: "int \<Rightarrow> int \<Rightarrow> int \<Rightarrow> int" where
  "MulDiv a b c =
     (if c = 0 then - 1
      else let q = (2 * \<bar>a * b\<bar> + \<bar>c\<bar>) div (2 * \<bar>c\<bar>);
               r = (if (a * b < 0) \<noteq> (c < 0) then - q else q)
           in if r < - 2147483648 \<or> 2147483647 < r then - 1 else r)"

text \<open>
  \<open>Scale(hwnd, px)\<close>; the value of \<open>GetDpiForWindow(hwnd)\<close> is the parameter
  \<open>dpi\<close>.
\<close>

definition Scale :: "int \<Rightarrow> int \<Rightarrow> int" where
  "Scale dpi px = MulDiv px dpi 96"

definition SPLITTER_SIZE :: int where
  "SPLITTER_SIZE = 6"

section \<open>Tracks and the layout solver (src/core/ChronoUI.cpp, include/ChronoUI.hpp)\<close>

datatype SizeUnit = Pixels | Percent | Fill | System

datatype StandardMetric =
    TitleBar | TitleBarThin | CaptionButton | WindowMenu
  | MenuHeight | Toolbar | ToolbarButtonHeight | ToolbarButtonLabeledWidth | StatusBarHeight
  | EditBoxHeight
  | IconSmall | IconMedium | IconLarge
  | ScrollbarWidth | CheckBoxSize
  | Padding | Margin | Border

record WidgetSize =
  unit :: SizeUnit
  "value" :: float
  metric :: StandardMetric

definition WidgetSize_Fixed :: "float \<Rightarrow> WidgetSize" where
  "WidgetSize_Fixed px = \<lparr>unit = Pixels, value = px, metric = TitleBar\<rparr>"

definition WidgetSize_Fill :: "float \<Rightarrow> WidgetSize" where
  "WidgetSize_Fill weight = \<lparr>unit = Fill, value = weight, metric = TitleBar\<rparr>"

definition WidgetSize_Percent :: "float \<Rightarrow> WidgetSize" where
  "WidgetSize_Percent p = \<lparr>unit = Percent, value = p, metric = TitleBar\<rparr>"

definition WidgetSize_System :: "StandardMetric \<Rightarrow> WidgetSize" where
  "WidgetSize_System m = \<lparr>unit = System, value = 0, metric = m\<rparr>"

text \<open>
  \<open>SplitterData\<close> without its window handle, owner pointer and drag flag. A
  \<open>DimPlan\<close> is one track; the fields \<open>size\<close> and \<open>min\<close> of the source are
  \<open>size'\<close> and \<open>min'\<close> here.
\<close>

record SplitterData =
  isVert :: bool
  index :: int

record DimPlan =
  size' :: WidgetSize
  min' :: WidgetSize
  pos :: int
  actual :: int
  splitter :: bool
  sd :: "SplitterData option"
  savedSize :: WidgetSize
  isCollapsed :: bool

text \<open>The aggregate \<open>{ size, min }\<close> with the default member initialisers.\<close>

definition DimPlan_init :: "WidgetSize \<Rightarrow> WidgetSize \<Rightarrow> DimPlan" where
  "DimPlan_init s m =
     \<lparr>size' = s, min' = m, pos = 0, actual = 0, splitter = False, sd = None,
      savedSize = WidgetSize_Fixed 0, isCollapsed = False\<rparr>"

record RECT =
  left :: int
  top' :: int
  right :: int
  bottom :: int

text \<open>
  The platform as the solver sees it: \<open>GetDpiForWindow\<close> of the parent window and
  \<open>GetSystemMetricsForDpi(SM_CYCAPTION, dpi)\<close>.
\<close>

record platform =
  dpi :: int
  cyCaption :: int

text \<open>The minimum of a track in pixels, as written inline at each use in the source.\<close>

definition minPx :: "platform \<Rightarrow> int \<Rightarrow> WidgetSize \<Rightarrow> int" where
  "minPx E tot m =
     (if unit m = Percent
        then int_of_float (float_div (float_mul (float_of_int tot) (value m)) 100)
      else Scale (dpi E) (int_of_float (value m)))"


text \<open>
  The lambda \<open>solve\<close> of \<open>Arrange\<close> is three loops over the tracks of one axis. The
  first resolves the tracks that are not Fill and accumulates \<open>avail\<close> and
  \<open>fillWeights\<close>; it returns the tracks with both accumulators.
\<close>

fun solve_primary ::
  "platform \<Rightarrow> int \<Rightarrow> DimPlan list \<Rightarrow> int \<Rightarrow> float \<Rightarrow> DimPlan list \<times> int \<times> float" where
  "solve_primary E tot [] avail fillWeights = ([], avail, fillWeights)"
| "solve_primary E tot (d # ds) avail fillWeights =
     (let avail1 = (if splitter d then avail - Scale (dpi E) SPLITTER_SIZE else avail);
          mp = minPx E tot (min' d)
      in if unit (size' d) = Fill
           then (case solve_primary E tot ds avail1 (float_add fillWeights (value (size' d))) of
                   (ds', r) \<Rightarrow> (d\<lparr>actual := 0\<rparr> # ds', r))
         else
           let a = (if unit (size' d) = Pixels
                      then max (Scale (dpi E) (int_of_float (value (size' d)))) mp
                    else if unit (size' d) = System then cyCaption E
                    else max (int_of_float
                                (float_div (float_mul (float_of_int tot) (value (size' d))) 100))
                             mp)
           in (case solve_primary E tot ds (avail1 - a) fillWeights of
                 (ds', r) \<Rightarrow> (d\<lparr>actual := a\<rparr> # ds', r)))"

text \<open>The second loop gives every Fill track its share of \<open>avail\<close>.\<close>

definition solve_fill_one :: "platform \<Rightarrow> int \<Rightarrow> int \<Rightarrow> float \<Rightarrow> DimPlan \<Rightarrow> DimPlan" where
  "solve_fill_one E tot avail fillWeights d =
     (if unit (size' d) = Fill
        then d\<lparr>actual :=
               max (if 0 < avail
                      then int_of_float
                             (float_div (float_mul (float_of_int avail) (value (size' d)))
                                fillWeights)
                    else 0)
                   (minPx E tot (min' d))\<rparr>
      else d)"

text \<open>The third loop assigns the cumulative positions.\<close>

fun solve_positions :: "platform \<Rightarrow> int \<Rightarrow> DimPlan list \<Rightarrow> DimPlan list" where
  "solve_positions E cur [] = []"
| "solve_positions E cur (d # ds) =
     d\<lparr>pos := cur\<rparr> #
       solve_positions E
         (cur + (actual d + (if splitter d then Scale (dpi E) SPLITTER_SIZE else 0))) ds"

definition solve :: "platform \<Rightarrow> DimPlan list \<Rightarrow> int \<Rightarrow> int \<Rightarrow> DimPlan list" where
  "solve E dims tot offset =
     (case solve_primary E tot dims tot 0 of
        (dims1, avail, fillWeights) \<Rightarrow>
          solve_positions E offset
            (if 0 < fillWeights then map (solve_fill_one E tot avail fillWeights) dims1
             else dims1))"

text \<open>
  \<open>LayoutImpl\<close>: its own context node, the two axes, the cells (each a context node,
  addressed by its index in \<open>m_cells\<close>) and the table of cell names. \<open>Arrange\<close>
  then moves the cell and splitter windows to the solved rectangles through the window
  manager; the model keeps the solved tracks, from which these rectangles are read.
\<close>

record LayoutImpl =
  ctx :: ContextNodeImpl
  m_rCount :: int
  m_cCount :: int
  m_rows :: "DimPlan list"
  m_cols :: "DimPlan list"
  m_cells :: "ContextNodeImpl list"
  m_lastRect :: RECT
  named_cells :: "string \<rightharpoonup> int \<times> int"

text \<open>The constructor, for counts that are not negative.\<close>

definition LayoutImpl_new :: "int \<Rightarrow> int \<Rightarrow> LayoutImpl" where
  "LayoutImpl_new r c =
     \<lparr>ctx = ContextNodeImpl ContextNode None Map.empty,
      m_rCount = r, m_cCount = c,
      m_rows = replicate (nat r) (DimPlan_init (WidgetSize_Fill 1) (WidgetSize_Fixed 20)),
      m_cols = replicate (nat c) (DimPlan_init (WidgetSize_Fill 1) (WidgetSize_Fixed 20)),
      m_cells = replicate (nat (r * c)) (ContextNodeImpl ContextNode None Map.empty),
      m_lastRect = \<lparr>left = 0, top' = 0, right = 0, bottom = 0\<rparr>,
      named_cells = Map.empty\<rparr>"

definition Arrange :: "platform \<Rightarrow> LayoutImpl \<Rightarrow> int \<Rightarrow> int \<Rightarrow> int \<Rightarrow> int \<Rightarrow> LayoutImpl" where
  "Arrange E L x y w h =
     L\<lparr>m_lastRect := \<lparr>left = x, top' = y, right = x + w, bottom = y + h\<rparr>,
       m_rows := solve E (m_rows L) h y,
       m_cols := solve E (m_cols L) w x\<rparr>"

text \<open>The rectangle \<open>(x, y, width, height)\<close> that \<open>Arrange\<close> hands to the window of
  the cell at row \<open>r\<close>, column \<open>c\<close>.\<close>

definition cell_rect :: "LayoutImpl \<Rightarrow> nat \<Rightarrow> nat \<Rightarrow> int \<times> int \<times> int \<times> int" where
  "cell_rect L r c =
     (pos (m_cols L ! c), pos (m_rows L ! r), actual (m_cols L ! c), actual (m_rows L ! r))"

definition RefreshLayout :: "platform \<Rightarrow> LayoutImpl \<Rightarrow> LayoutImpl" where
  "RefreshLayout E L =
     Arrange E L (left (m_lastRect L)) (top' (m_lastRect L))
       (right (m_lastRect L) - left (m_lastRect L))
       (bottom (m_lastRect L) - top' (m_lastRect L))"

definition CollapseColumn :: "platform \<Rightarrow> LayoutImpl \<Rightarrow> int \<Rightarrow> LayoutImpl" where
  "CollapseColumn E L i =
     (if i < 0 \<or> m_cCount L \<le> i then L
      else let col = m_cols L ! nat i
           in if isCollapsed col then L
              else RefreshLayout E
                     (L\<lparr>m_cols := (m_cols L)
                          [nat i := col\<lparr>savedSize := size' col, size' := min' col,
                                        isCollapsed := True\<rparr>]\<rparr>))"

definition RestoreColumn :: "platform \<Rightarrow> LayoutImpl \<Rightarrow> int \<Rightarrow> LayoutImpl" where
  "RestoreColumn E L i =
     (if i < 0 \<or> m_cCount L \<le> i then L
      else let col = m_cols L ! nat i
           in if \<not> isCollapsed col then L
              else RefreshLayout E
                     (L\<lparr>m_cols := (m_cols L)
                          [nat i := col\<lparr>size' := savedSize col, isCollapsed := False\<rparr>]\<rparr>))"

definition IsColumnCollapsed :: "LayoutImpl \<Rightarrow> int \<Rightarrow> bool" where
  "IsColumnCollapsed L i =
     (if i < 0 \<or> m_cCount L \<le> i then False else isCollapsed (m_cols L ! nat i))"

text \<open>
  What the constructor establishes and every operation of the class keeps: the counts are
  the lengths of the vectors.
\<close>

definition layout_ok :: "LayoutImpl \<Rightarrow> bool" where
  "layout_ok L =
     (0 \<le> m_rCount L \<and> 0 \<le> m_cCount L \<and>
      int (length (m_rows L)) = m_rCount L \<and>
      int (length (m_cols L)) = m_cCount L \<and>
      int (length (m_cells L)) = m_rCount L * m_cCount L)"

text \<open>
  Indexing a \<open>std::vector\<close> outside its bounds is undefined behaviour; the model
  returns this fault instead of a value.
\<close>

datatype fault = OutOfBounds

text \<open>
  \<open>SetRow\<close> and \<open>SetCol\<close> index the vector without a check. The splitter window
  they create is represented by its \<open>SplitterData\<close>.
\<close>

definition SetRow :: "LayoutImpl \<Rightarrow> int \<Rightarrow> WidgetSize \<Rightarrow> bool \<Rightarrow> WidgetSize \<Rightarrow> fault + LayoutImpl" where
  "SetRow L i s sp m =
     (if i < 0 \<or> int (length (m_rows L)) \<le> i then Inl OutOfBounds
      else let d = (m_rows L ! nat i)\<lparr>size' := s, splitter := sp, min' := m\<rparr>;
               d' = (if sp \<and> sd d = None then d\<lparr>sd := Some \<lparr>isVert = False, index = i\<rparr>\<rparr> else d)
           in Inr (L\<lparr>m_rows := (m_rows L)[nat i := d']\<rparr>))"


definition SetCellName :: "LayoutImpl \<Rightarrow> int \<Rightarrow> int \<Rightarrow> string \<Rightarrow> LayoutImpl" where
  "SetCellName L row col name = L\<lparr>named_cells := (named_cells L)(name \<mapsto> (row, col))\<rparr>"

text \<open>
  \<open>GetCell(int, int)\<close> returns a pointer to a cell, here the index of the cell in
  \<open>m_cells\<close>; a null pointer is \<open>None\<close>. The vector is read at
  \<open>r * m_cCount + c\<close> without a check. A cell without parent gets the layout as parent.
\<close>

definition GetCell :: "LayoutImpl \<Rightarrow> int \<Rightarrow> int \<Rightarrow> fault + nat option \<times> LayoutImpl" where
  "GetCell L r c =
     (let i = r * m_cCount L + c
      in if i < 0 \<or> int (length (m_cells L)) \<le> i then Inl OutOfBounds
         else let cell = m_cells L ! nat i
              in if m_parent cell = None
                   then Inr (Some (nat i),
                             L\<lparr>m_cells := (m_cells L)[nat i := SetParentNode cell (Some (ctx L))]\<rparr>)
                 else Inr (Some (nat i), L))"

text \<open>\<open>GetCell(const char*)\<close>.\<close>

definition GetCell_name :: "LayoutImpl \<Rightarrow> string \<Rightarrow> fault + nat option \<times> LayoutImpl" where
  "GetCell_name L name =
     (case named_cells L name of
        None \<Rightarrow> Inr (None, L)
      | Some rc \<Rightarrow> GetCell L (fst rc) (snd rc))"





section \<open>Cells in command-bar mode (src/core/ChronoUI.cpp)\<close>

datatype StackMode = Vertical | Horizontal | Tabbed | CommandBar

text \<open>
  A widget pointer is the identity \<open>wid\<close> of the widget with the context node of the
  widget. \<open>WidgetImpl::GetProperty\<close> answers the keys \<open>checked\<close>, \<open>validated\<close>,
  \<open>enabled\<close> and \<open>disabled\<close> from the state of the widget and every other key,
  \<open>width\<close> among them, through \<open>ContextNodeImpl::GetProperty\<close>.
\<close>

record IWidget =
  wid :: nat
  wnode :: ContextNodeImpl

record CellImpl =
  cnode :: ContextNodeImpl
  widgets :: "IWidget list"
  m_mode :: StackMode
  overflowItems :: "IWidget list"
  overflowButton :: "IWidget option"

text \<open>
  \<open>ParseCssDimension\<close>. \<open>std::stof\<close> belongs to the C++ library and is the parameter
  \<open>stof\<close>: the parsed number, or \<open>None\<close> where it throws.
\<close>

definition ParseCssDimension :: "(string \<Rightarrow> float option) \<Rightarrow> int \<Rightarrow> string \<Rightarrow> int \<Rightarrow> int" where
  "ParseCssDimension stof dpiv input refTotalSize =
     (if input = [] then - 1
      else if input = ''auto'' then refTotalSize
      else
        let isPercent = (last input = CHR ''%'');
            suffix = drop (length input - 2) input;
            v = (if isPercent then butlast input
                 else if 2 < length input \<and> (suffix = ''px'' \<or> suffix = ''lu'')
                   then take (length input - 2) input
                 else input)
        in case stof v of
             None \<Rightarrow> - 1
           | Some fVal \<Rightarrow>
               if isPercent
                 then int_of_float (float_mul (float_of_int refTotalSize) (float_div fVal 100))
               else Scale dpiv (int_of_float fVal))"

text \<open>The width that \<open>MeasureCommandBarWidgets\<close> computes for one widget.\<close>

definition widgetWidth :: "(string \<Rightarrow> float option) \<Rightarrow> int \<Rightarrow> int \<Rightarrow> IWidget \<Rightarrow> int" where
  "widgetWidth stof dpiv availableWidth w =
     (let wProp = GetProperty (wnode w) ''width'' []
      in if wProp = ''auto'' then Scale dpiv 40
         else let pw = ParseCssDimension stof dpiv wProp availableWidth
              in if pw < 0 then Scale dpiv 80 else pw)"

text \<open>
  The loop of \<open>MeasureCommandBarWidgets\<close> over the widgets, with the running
  \<open>usedWidth\<close> and the two result vectors; \<open>btn\<close> is the identity of the overflow
  button, if the cell has one.
\<close>

fun measure_loop ::
  "(string \<Rightarrow> float option) \<Rightarrow> int \<Rightarrow> nat option \<Rightarrow> int \<Rightarrow> bool \<Rightarrow>
     IWidget list \<Rightarrow> int \<Rightarrow> IWidget list \<Rightarrow> IWidget list \<Rightarrow> IWidget list \<times> IWidget list" where
  "measure_loop stof dpiv btn availableWidth allowOverflow [] usedWidth visible overflow =
     (visible, overflow)"
| "measure_loop stof dpiv btn availableWidth allowOverflow (w # ws) usedWidth visible overflow =
     (if Some (wid w) = btn
        then measure_loop stof dpiv btn availableWidth allowOverflow ws usedWidth visible overflow
      else
        let ww = widgetWidth stof dpiv availableWidth w;
            overflowBtnWidth = Scale dpiv 40;
            spacing = Scale dpiv 4;
            needsOverflowRoom =
              (overflow \<noteq> [] \<or> availableWidth < usedWidth + ww + spacing + overflowBtnWidth);
            maxWidth = (if allowOverflow \<and> needsOverflowRoom
                          then availableWidth - overflowBtnWidth - spacing
                        else availableWidth)
        in if overflow = [] \<and> usedWidth + ww \<le> maxWidth
             then measure_loop stof dpiv btn availableWidth allowOverflow ws
                    (usedWidth + (ww + spacing)) (visible @ [w]) overflow
           else if allowOverflow
             then measure_loop stof dpiv btn availableWidth allowOverflow ws
                    usedWidth visible (overflow @ [w])
           else measure_loop stof dpiv btn availableWidth allowOverflow ws
                  usedWidth visible overflow)"

definition MeasureCommandBarWidgets ::
  "(string \<Rightarrow> float option) \<Rightarrow> int \<Rightarrow> CellImpl \<Rightarrow> int \<Rightarrow> bool \<Rightarrow> IWidget list \<times> IWidget list" where
  "MeasureCommandBarWidgets stof dpiv C availableWidth allowOverflow =
     (if widgets C = [] then ([], [])
      else measure_loop stof dpiv (map_option wid (overflowButton C)) availableWidth allowOverflow
             (widgets C) 0 [] [])"

text \<open>
  \<open>UpdateWidgets\<close> on a cell in the mode \<open>StackMode::CommandBar\<close> that has a
  window and no nested layout; without widgets it returns at once. \<open>parentWidth\<close> is the
  client width of the cell, \<open>newButton\<close> what \<open>CreateOverflowButton\<close> returns when it
  is called (null without container or plug-in). \<open>shown\<close> is the visibility flag of each
  widget window: \<open>ShowWindow\<close> sets it with \<open>SW_SHOW\<close> and clears it with
  \<open>SW_HIDE\<close>, and the branch calls it for the visible widgets, for the overflow button
  and for the overflow widgets, and for no other widget. The bounds the branch gives to the
  visible widgets are not part of the model.
\<close>

definition UpdateWidgets_CommandBar ::
  "(string \<Rightarrow> float option) \<Rightarrow> int \<Rightarrow> IWidget option \<Rightarrow> int \<Rightarrow> CellImpl \<Rightarrow> (nat \<Rightarrow> bool) \<Rightarrow>
     CellImpl \<times> (nat \<Rightarrow> bool)" where
  "UpdateWidgets_CommandBar stof dpiv newButton parentWidth C shown =
     (if widgets C = [] then (C, shown) else
      let allowOverflow = (GetProperty (cnode C) ''overflow'' [] \<noteq> ''false'');
          m = MeasureCommandBarWidgets stof dpiv C parentWidth allowOverflow;
          visibleWidgets = fst m;
          overflowWidgets = snd m;
          needsOverflow = (overflowWidgets \<noteq> []);
          button = (if needsOverflow
                      then (case overflowButton C of None \<Rightarrow> newButton | Some b \<Rightarrow> Some b)
                    else None);
          shown0 = (case overflowButton C of
                      Some b \<Rightarrow> if needsOverflow then shown else shown(wid b := False)
                    | None \<Rightarrow> shown);
          shown1 = fold (\<lambda>w sh. sh(wid w := True)) visibleWidgets shown0;
          shown2 = (case button of Some b \<Rightarrow> shown1(wid b := True) | None \<Rightarrow> shown1);
          shown3 = fold (\<lambda>w sh. sh(wid w := False)) overflowWidgets shown2
      in (C\<lparr>overflowButton := button, overflowItems := overflowWidgets\<rparr>, shown3))"

text \<open>Two tracks with the same policy: they differ at most in the resolved size and position.\<close>

definition same_policy :: "DimPlan \<Rightarrow> DimPlan \<Rightarrow> bool" where
  "same_policy d d' =
     (size' d' = size' d \<and> min' d' = min' d \<and> splitter d' = splitter d \<and> sd d' = sd d \<and>
      savedSize d' = savedSize d \<and> isCollapsed d' = isCollapsed d)"





text \<open>
  The test of the loop on a widget of width \<open>ww\<close> while nothing has overflowed, in
  closed form: with overflow allowed the widget must fit together with the spacing and the
  overflow button.
\<close>

definition fits_bar :: "int \<Rightarrow> int \<Rightarrow> bool \<Rightarrow> int \<Rightarrow> int \<Rightarrow> bool" where
  "fits_bar dpiv availableWidth allowOverflow usedWidth ww =
     (if allowOverflow
        then usedWidth + ww \<le> availableWidth \<and>
             usedWidth + ww + Scale dpiv 4 + Scale dpiv 40 \<le> availableWidth
      else usedWidth + ww \<le> availableWidth)"

text \<open>The widgets that the loop considers: all but the overflow button.\<close>

definition bar_candidates :: "nat option \<Rightarrow> IWidget list \<Rightarrow> IWidget list" where
  "bar_candidates btn ws = filter (\<lambda>w. Some (wid w) \<noteq> btn) ws"

section \<open>Verification\<close>

subsection \<open>Properties of the store\<close>

lemma GetProperty_base:
  "\<not> answers_from_state n k \<Longrightarrow> GetProperty n k d = ContextNodeImpl_GetProperty n k d"
  by (cases n) (auto simp: answers_from_state_def split: node_class.splits)

lemma answers_from_state_keys: "k \<notin> set state_keys \<Longrightarrow> \<not> answers_from_state n k"
  by (auto simp: answers_from_state_def state_keys_def split: node_class.splits)


lemma GetProperty_local:
  "\<not> answers_from_state n k \<Longrightarrow> m_properties n k = Some v \<Longrightarrow> GetProperty n k d = v"
proof -
  assume a: "\<not> answers_from_state n k" and b: "m_properties n k = Some v"
  have "ContextNodeImpl_GetProperty n k d = v"
    using b by (cases n) simp
  then show ?thesis
    by (simp only: GetProperty_base [OF a])
qed


lemma TryResolveState_first_nonempty:
  "TryResolveState n base selected enabled hovered active =
     first_nonempty n (state_suffix_keys base selected enabled hovered active)"
  by (simp add: TryResolveState_def first_nonempty_def state_suffix_keys_def HasProperty_def)

lemma first_nonempty_nonempty:
  "k \<in> set ks \<Longrightarrow> GetProperty n k [] \<noteq> [] \<Longrightarrow> first_nonempty n ks \<noteq> []"
proof -
  assume mem: "k \<in> set ks" and ne: "GetProperty n k [] \<noteq> []"
  then obtain k' where f: "find (\<lambda>k. GetProperty n k [] \<noteq> []) ks = Some k'"
    by (cases "find (\<lambda>k. GetProperty n k [] \<noteq> []) ks") (auto simp: find_None_iff)
  then have "GetProperty n k' [] \<noteq> []"
    by (auto simp: find_Some_iff)
  with f show ?thesis by (simp add: first_nonempty_def)
qed

lemma first_nonempty_Cons:
  "first_nonempty n (k # ks) =
     (if GetProperty n k [] \<noteq> [] then GetProperty n k [] else first_nonempty n ks)"
  by (simp add: first_nonempty_def)

lemma first_nonempty_Nil: "first_nonempty n [] = []"
  by (simp add: first_nonempty_def)

lemma first_nonempty_cong:
  "(\<forall>k \<in> set ks. GetProperty n k [] = GetProperty n' k []) \<Longrightarrow>
     first_nonempty n ks = first_nonempty n' ks"
  by (induction ks) (simp_all add: first_nonempty_Cons first_nonempty_Nil)




text \<open>
  C9, as stated, fails on a widget that binds \<open>checked\<close> to the empty string: it
  answers \<open>false\<close>.
\<close>

theorem empty_binding_counterexample:
  "m_properties (SetProperty WidgetImpl_new ''checked'' (Some []) True) ''checked'' = Some []
   \<and> GetProperty (SetProperty WidgetImpl_new ''checked'' (Some []) True) ''checked'' ''unset''
       = ''false''"
  by (simp add: SetProperty_def OnPropertyChanged_def PerformValidation_def
      ContextNodeImpl_SetProperty_def WidgetImpl_new_def Let_def)

text \<open>
  C9, amended. In the store presence decides: a node that does not answer the key from its
  state and whose local map binds the key to the empty string answers the empty string,
  whatever the ancestors bind and whatever the default. The style cascade treats the same
  binding as absent and answers the default.
\<close>

theorem empty_binding_shadows:
  assumes "m_properties n k = Some []" and "\<not> answers_from_state n k"
  shows "GetProperty n k d = [] \<and> GetStyle n k d [] [] False True False False = d"
proof -
  have g: "GetProperty n k x = []" for x
    using assms(2,1) by (rule GetProperty_local)
  then show ?thesis
    by (simp add: GetStyle_def TryResolveState_def HasProperty_def)
qed

text \<open>An empty local \<open>color\<close> on a widget under a parent whose \<open>color\<close> is \<open>red\<close>.\<close>

theorem empty_binding_shadows_witness:
  "m_properties
     (SetProperty
        (SetParentNode WidgetImpl_new
           (Some (SetProperty ContextNodeImpl_new ''color'' (Some ''red'') True)))
        ''color'' (Some []) True) ''color'' = Some []
   \<and> GetProperty
       (SetProperty
          (SetParentNode WidgetImpl_new
             (Some (SetProperty ContextNodeImpl_new ''color'' (Some ''red'') True)))
          ''color'' (Some []) True) ''color'' ''black'' = []
   \<and> GetStyle
       (SetProperty
          (SetParentNode WidgetImpl_new
             (Some (SetProperty ContextNodeImpl_new ''color'' (Some ''red'') True)))
          ''color'' (Some []) True) ''color'' ''black'' [] [] False True False False = ''black''
   \<and> GetProperty
       (SetParentNode WidgetImpl_new
          (Some (SetProperty ContextNodeImpl_new ''color'' (Some ''red'') True)))
       ''color'' ''black'' = ''red''"
proof -
  let ?p = "SetParentNode WidgetImpl_new
              (Some (SetProperty ContextNodeImpl_new ''color'' (Some ''red'') True))"
  let ?n = "SetProperty ?p ''color'' (Some []) True"
  have h: "m_properties ?n ''color'' = Some []"
    by (simp add: SetProperty_def OnPropertyChanged_def PerformValidation_def
        ContextNodeImpl_SetProperty_def SetParentNode_def WidgetImpl_new_def Let_def)
  have a: "\<not> answers_from_state ?n ''color''"
    by (rule answers_from_state_keys) (simp add: state_keys_def)
  have r: "GetProperty ?p ''color'' ''black'' = ''red''"
    by (simp add: SetProperty_def ContextNodeImpl_SetProperty_def SetParentNode_def
        WidgetImpl_new_def ContextNodeImpl_new_def)
  from empty_binding_shadows [OF h a, of "''black''"] h r show ?thesis
    by blast
qed

text \<open>
  C2. The state-suffix probe checks \<open>base:disabled\<close> (only when not enabled),
  \<open>base:hover\<close> (only when hovered), \<open>base:selected\<close> (only when selected),
  \<open>base:active\<close> (only when active) and then the base key, and returns the first that
  resolves to a non-empty string, the empty string when none does. With hovered and selected
  both set on an enabled element, a non-empty \<open>x:hover\<close> wins, whatever
  \<open>x:selected\<close> holds. The result depends on the node only through what the probed keys
  resolve to, so a key that resolves to the empty string counts as a key that is absent.
\<close>

theorem state_suffix_probe:
  "TryResolveState n base selected enabled hovered active =
     first_nonempty n (state_suffix_keys base selected enabled hovered active)
   \<and> (GetProperty n (x @ '':hover'') [] \<noteq> [] \<longrightarrow>
        TryResolveState n x True True True active = GetProperty n (x @ '':hover'') [])
   \<and> ((\<forall>k \<in> set (state_suffix_keys base selected enabled hovered active).
          GetProperty n k [] = GetProperty n' k []) \<longrightarrow>
        TryResolveState n base selected enabled hovered active =
        TryResolveState n' base selected enabled hovered active)"
proof (intro conjI impI)
  show "TryResolveState n base selected enabled hovered active =
     first_nonempty n (state_suffix_keys base selected enabled hovered active)"
    by (rule TryResolveState_first_nonempty)
  show "TryResolveState n x True True True active = GetProperty n (x @ '':hover'') []"
    if "GetProperty n (x @ '':hover'') [] \<noteq> []"
    using that by (simp add: TryResolveState_def HasProperty_def)
  show "TryResolveState n base selected enabled hovered active =
        TryResolveState n' base selected enabled hovered active"
    if "\<forall>k \<in> set (state_suffix_keys base selected enabled hovered active).
          GetProperty n k [] = GetProperty n' k []"
    unfolding TryResolveState_first_nonempty using that by (rule first_nonempty_cong)
qed

text \<open>
  Hover beats selected; and a node that binds \<open>x:hover\<close> to the empty string resolves
  like the node without the key.
\<close>

theorem state_suffix_probe_witness:
  "GetProperty (ContextNodeImpl ContextNode None [''x:hover'' \<mapsto> ''H'', ''x:selected'' \<mapsto> ''S'', ''x'' \<mapsto> ''B''])
     (''x'' @ '':hover'') [] \<noteq> []
   \<and> TryResolveState (ContextNodeImpl ContextNode None [''x:hover'' \<mapsto> ''H'', ''x:selected'' \<mapsto> ''S'', ''x'' \<mapsto> ''B''])
       ''x'' True True True False = ''H''
   \<and> state_suffix_keys ''x'' True True True False = [''x:hover'', ''x:selected'', ''x'']
   \<and> TryResolveState (ContextNodeImpl ContextNode None [''x:hover'' \<mapsto> [], ''x:selected'' \<mapsto> ''S''])
       ''x'' True True True False =
     TryResolveState (ContextNodeImpl ContextNode None [''x:selected'' \<mapsto> ''S''])
       ''x'' True True True False"
proof -
  let ?n = "ContextNodeImpl ContextNode None [''x:hover'' \<mapsto> ''H'', ''x:selected'' \<mapsto> ''S'', ''x'' \<mapsto> ''B'']"
  let ?e = "ContextNodeImpl ContextNode None [''x:hover'' \<mapsto> [], ''x:selected'' \<mapsto> ''S'']"
  let ?a = "ContextNodeImpl ContextNode None [''x:selected'' \<mapsto> ''S'']"
  have h: "GetProperty ?n (''x'' @ '':hover'') [] \<noteq> []"
    by simp
  have v: "GetProperty ?n (''x'' @ '':hover'') [] = ''H''"
    by simp
  have q: "\<forall>k \<in> set (state_suffix_keys ''x'' True True True False).
             GetProperty ?e k [] = GetProperty ?a k []"
    by (simp add: state_suffix_keys_def)
  from state_suffix_probe [of ?n "''x''" True True True False "''x''" ?n]
  have 1: "TryResolveState ?n ''x'' True True True False = ''H''"
    using h v by metis
  from state_suffix_probe [of ?e "''x''" True True True False "''x''" ?a]
  have 2: "TryResolveState ?e ''x'' True True True False
           = TryResolveState ?a ''x'' True True True False"
    using q by blast
  have k: "state_suffix_keys ''x'' True True True False = [''x:hover'', ''x:selected'', ''x'']"
    by (simp add: state_suffix_keys_def)
  from h 1 k 2 show ?thesis by blast
qed

text \<open>
  C1. With a non-empty variant, when one of the keys that the probe checks for
  \<open>classid:variant:prop\<close> under the flags resolves to a non-empty string,
  \<open>GetStyle\<close> returns what the probe finds at that level, whatever is stored under
  \<open>classid:prop\<close> and \<open>prop\<close>; on an enabled element that is neither hovered,
  selected nor active this is the value of \<open>classid:variant:prop\<close> itself.
\<close>

theorem variant_precedence:
  assumes "variant \<noteq> []"
    and "k \<in> set (state_suffix_keys (classid @ '':'' @ variant @ '':'' @ prop)
                    selected enabled hovered active)"
    and "GetProperty n k [] \<noteq> []"
  shows "GetStyle n prop def classid variant selected enabled hovered active =
           first_nonempty n (state_suffix_keys (classid @ '':'' @ variant @ '':'' @ prop)
                               selected enabled hovered active)
         \<and> GetStyle n prop def classid variant selected enabled hovered active \<noteq> []
         \<and> (enabled \<and> \<not> hovered \<and> \<not> selected \<and> \<not> active \<longrightarrow>
              GetStyle n prop def classid variant selected enabled hovered active =
              GetProperty n (classid @ '':'' @ variant @ '':'' @ prop) [])"
proof -
  let ?base = "classid @ '':'' @ variant @ '':'' @ prop"
  let ?r = "TryResolveState n ?base selected enabled hovered active"
  have r: "?r = first_nonempty n (state_suffix_keys ?base selected enabled hovered active)"
    by (rule TryResolveState_first_nonempty)
  have ne: "?r \<noteq> []"
    unfolding r using assms(2,3) by (rule first_nonempty_nonempty)
  have g: "GetStyle n prop def classid variant selected enabled hovered active = ?r"
    using assms(1) ne by (simp add: GetStyle_def Let_def)
  have p: "enabled \<and> \<not> hovered \<and> \<not> selected \<and> \<not> active \<longrightarrow> ?r = GetProperty n ?base []"
    using ne by (simp add: TryResolveState_def split: if_splits)
  from g r have 1: "GetStyle n prop def classid variant selected enabled hovered active =
           first_nonempty n (state_suffix_keys ?base selected enabled hovered active)"
    by simp
  from g ne have 2: "GetStyle n prop def classid variant selected enabled hovered active \<noteq> []"
    by simp
  have 3: "enabled \<and> \<not> hovered \<and> \<not> selected \<and> \<not> active \<longrightarrow>
              GetStyle n prop def classid variant selected enabled hovered active =
              GetProperty n ?base []"
    unfolding g by (rule p)
  from 1 2 3 show ?thesis by blast
qed

text \<open>
  \<open>btn:danger:color\<close>, \<open>btn:color\<close> and \<open>color\<close> all defined: resolving
  \<open>color\<close> for \<open>btn\<close> and \<open>danger\<close> gives the first.
\<close>

theorem variant_precedence_witness:
  "''danger'' \<noteq> []
   \<and> ''btn:danger:color'' \<in> set (state_suffix_keys (''btn'' @ '':'' @ ''danger'' @ '':'' @ ''color'')
                                   False True False False)
   \<and> GetProperty (ContextNodeImpl ContextNode None
         [''btn:danger:color'' \<mapsto> ''red'', ''btn:color'' \<mapsto> ''blue'', ''color'' \<mapsto> ''black''])
       ''btn:danger:color'' [] \<noteq> []
   \<and> GetStyle (ContextNodeImpl ContextNode None
         [''btn:danger:color'' \<mapsto> ''red'', ''btn:color'' \<mapsto> ''blue'', ''color'' \<mapsto> ''black''])
       ''color'' ''white'' ''btn'' ''danger'' False True False False = ''red''"
proof -
  let ?n = "ContextNodeImpl ContextNode None
         [''btn:danger:color'' \<mapsto> ''red'', ''btn:color'' \<mapsto> ''blue'', ''color'' \<mapsto> ''black'']"
  have a: "''danger'' \<noteq> []" by simp
  have b: "''btn:danger:color'' \<in> set (state_suffix_keys (''btn'' @ '':'' @ ''danger'' @ '':'' @ ''color'')
                                   False True False False)"
    by (simp add: state_suffix_keys_def)
  have c: "GetProperty ?n ''btn:danger:color'' [] \<noteq> []" by simp
  have d: "GetProperty ?n (''btn'' @ '':'' @ ''danger'' @ '':'' @ ''color'') [] = ''red''"
    by simp
  from variant_precedence [OF a b c, where ?def = "''white''"]
  have "GetStyle ?n ''color'' ''white'' ''btn'' ''danger'' False True False False =
        GetProperty ?n (''btn'' @ '':'' @ ''danger'' @ '':'' @ ''color'') []"
    by blast
  with d have e: "GetStyle ?n ''color'' ''white'' ''btn'' ''danger'' False True False False = ''red''"
    by (simp only:)
  from a b c e show ?thesis by blast
qed

subsection \<open>The layout solver\<close>

lemma same_policy_refl: "same_policy d d"
  by (simp add: same_policy_def)

lemma same_policy_trans: "same_policy a b \<Longrightarrow> same_policy b c \<Longrightarrow> same_policy a c"
  by (simp add: same_policy_def)

lemma solve_primary_Cons:
  "fst (solve_primary E tot (d # ds) avail fw) =
     d\<lparr>actual := (if unit (size' d) = Fill then 0
                    else if unit (size' d) = Pixels
                      then max (Scale (dpi E) (int_of_float (value (size' d)))) (minPx E tot (min' d))
                    else if unit (size' d) = System then cyCaption E
                    else max (int_of_float
                                (float_div (float_mul (float_of_int tot) (value (size' d))) 100))
                             (minPx E tot (min' d)))\<rparr>
     # fst (solve_primary E tot ds
              (if unit (size' d) = Fill
                 then (if splitter d then avail - Scale (dpi E) SPLITTER_SIZE else avail)
               else (if splitter d then avail - Scale (dpi E) SPLITTER_SIZE else avail) -
                    (if unit (size' d) = Pixels
                      then max (Scale (dpi E) (int_of_float (value (size' d)))) (minPx E tot (min' d))
                    else if unit (size' d) = System then cyCaption E
                    else max (int_of_float
                                (float_div (float_mul (float_of_int tot) (value (size' d))) 100))
                             (minPx E tot (min' d))))
              (if unit (size' d) = Fill then float_add fw (value (size' d)) else fw))"
  by (simp add: Let_def split: prod.splits)

lemma solve_primary_policy:
  "list_all2 same_policy ds (fst (solve_primary E tot ds avail fw))"
proof (induction ds arbitrary: avail fw)
  case Nil
  show ?case by simp
next
  case (Cons d ds)
  have h: "same_policy d (d\<lparr>actual := a\<rparr>)" for a
    by (simp add: same_policy_def)
  show ?case
    unfolding solve_primary_Cons
    by (rule list_all2_Cons [THEN iffD2]) (intro conjI h Cons.IH)
qed

lemma solve_fill_policy:
  "list_all2 same_policy ds (map (solve_fill_one E tot avail fw) ds)"
  by (induction ds) (simp_all add: solve_fill_one_def same_policy_def)

lemma solve_positions_policy:
  "list_all2 same_policy ds (solve_positions E cur ds)"
  by (induction ds arbitrary: cur) (simp_all add: same_policy_def)

lemma solve_policy: "list_all2 same_policy ds (solve E ds tot off)"
proof -
  obtain ds1 avail fw where p: "solve_primary E tot ds tot 0 = (ds1, avail, fw)"
    by (cases "solve_primary E tot ds tot 0") auto
  have 1: "list_all2 same_policy ds ds1"
    using solve_primary_policy [of ds E tot tot 0] p by simp
  define ds2 where "ds2 = (if 0 < fw then map (solve_fill_one E tot avail fw) ds1 else ds1)"
  have 2: "list_all2 same_policy ds1 ds2"
    unfolding ds2_def by (simp add: solve_fill_policy list_all2_refl same_policy_refl)
  have 3: "list_all2 same_policy ds2 (solve_positions E off ds2)"
    by (rule solve_positions_policy)
  have 12: "list_all2 same_policy ds ds2"
    by (rule list_all2_trans [OF _ 1 2]) (rule same_policy_trans)
  have "list_all2 same_policy ds (solve_positions E off ds2)"
    by (rule list_all2_trans [OF _ 12 3]) (rule same_policy_trans)
  then show ?thesis
    by (simp add: solve_def p ds2_def)
qed

lemma solve_length: "length (solve E ds tot off) = length ds"
  using solve_policy [of ds E tot off] by (simp add: list_all2_lengthD)

lemma solve_nth_policy:
  "n < length ds \<Longrightarrow> same_policy (ds ! n) (solve E ds tot off ! n)"
  using solve_policy [of ds E tot off] by (simp add: list_all2_nthD)

lemma Arrange_cols_policy:
  "n < length (m_cols L) \<Longrightarrow> same_policy (m_cols L ! n) (m_cols (Arrange E L x y w h) ! n)"
  by (simp add: Arrange_def solve_nth_policy)

lemma Arrange_counts:
  "m_cCount (Arrange E L x y w h) = m_cCount L"
  "m_rCount (Arrange E L x y w h) = m_rCount L"
  "length (m_cols (Arrange E L x y w h)) = length (m_cols L)"
  "length (m_rows (Arrange E L x y w h)) = length (m_rows L)"
  "m_cells (Arrange E L x y w h) = m_cells L"
  by (simp_all add: Arrange_def solve_length)

lemma RefreshLayout_cols_policy:
  "n < length (m_cols L) \<Longrightarrow> same_policy (m_cols L ! n) (m_cols (RefreshLayout E L) ! n)"
  by (simp add: RefreshLayout_def Arrange_cols_policy)

lemma RefreshLayout_counts:
  "m_cCount (RefreshLayout E L) = m_cCount L"
  "length (m_cols (RefreshLayout E L)) = length (m_cols L)"
  by (simp_all add: RefreshLayout_def Arrange_counts)

lemma CollapseColumn_fresh:
  assumes "0 \<le> i" "i < m_cCount L" "i < int (length (m_cols L))"
    and "\<not> isCollapsed (m_cols L ! nat i)"
  shows "size' (m_cols (CollapseColumn E L i) ! nat i) = min' (m_cols L ! nat i)"
    and "savedSize (m_cols (CollapseColumn E L i) ! nat i) = size' (m_cols L ! nat i)"
    and "isCollapsed (m_cols (CollapseColumn E L i) ! nat i)"
    and "m_cCount (CollapseColumn E L i) = m_cCount L"
    and "length (m_cols (CollapseColumn E L i)) = length (m_cols L)"
proof -
  let ?col = "(m_cols L ! nat i)\<lparr>savedSize := size' (m_cols L ! nat i),
                 size' := min' (m_cols L ! nat i), isCollapsed := True\<rparr>"
  let ?L1 = "L\<lparr>m_cols := (m_cols L)[nat i := ?col]\<rparr>"
  have c: "CollapseColumn E L i = RefreshLayout E ?L1"
    using assms by (simp add: CollapseColumn_def Let_def)
  have n: "nat i < length (m_cols ?L1)"
    using assms by simp
  have e: "m_cols ?L1 ! nat i = ?col"
    using assms by simp
  from RefreshLayout_cols_policy [OF n, of E] e
  have p: "same_policy ?col (m_cols (CollapseColumn E L i) ! nat i)"
    by (simp only: c)
  from p show "size' (m_cols (CollapseColumn E L i) ! nat i) = min' (m_cols L ! nat i)"
    by (simp add: same_policy_def)
  from p show "savedSize (m_cols (CollapseColumn E L i) ! nat i) = size' (m_cols L ! nat i)"
    by (simp add: same_policy_def)
  from p show "isCollapsed (m_cols (CollapseColumn E L i) ! nat i)"
    by (simp add: same_policy_def)
  show "m_cCount (CollapseColumn E L i) = m_cCount L"
    by (simp add: c RefreshLayout_counts)
  show "length (m_cols (CollapseColumn E L i)) = length (m_cols L)"
    by (simp add: c RefreshLayout_counts)
qed

lemma RestoreColumn_collapsed:
  assumes "0 \<le> i" "i < m_cCount L" "i < int (length (m_cols L))"
    and "isCollapsed (m_cols L ! nat i)"
  shows "size' (m_cols (RestoreColumn E L i) ! nat i) = savedSize (m_cols L ! nat i)"
    and "\<not> isCollapsed (m_cols (RestoreColumn E L i) ! nat i)"
proof -
  let ?col = "(m_cols L ! nat i)\<lparr>size' := savedSize (m_cols L ! nat i), isCollapsed := False\<rparr>"
  let ?L1 = "L\<lparr>m_cols := (m_cols L)[nat i := ?col]\<rparr>"
  have c: "RestoreColumn E L i = RefreshLayout E ?L1"
    using assms by (simp add: RestoreColumn_def Let_def)
  have n: "nat i < length (m_cols ?L1)"
    using assms by simp
  have e: "m_cols ?L1 ! nat i = ?col"
    using assms by simp
  from RefreshLayout_cols_policy [OF n, of E] e
  have p: "same_policy ?col (m_cols (RestoreColumn E L i) ! nat i)"
    by (simp only: c)
  from p show "size' (m_cols (RestoreColumn E L i) ! nat i) = savedSize (m_cols L ! nat i)"
    by (simp add: same_policy_def)
  from p show "\<not> isCollapsed (m_cols (RestoreColumn E L i) ! nat i)"
    by (simp add: same_policy_def)
qed

text \<open>
  C6. For a valid column index, \<open>CollapseColumn\<close> followed by \<open>RestoreColumn\<close>
  leaves the track with the size policy it had before the collapse and not collapsed. On a
  track that is already collapsed \<open>CollapseColumn\<close> changes nothing, so the saved
  policy is not overwritten and a later \<open>RestoreColumn\<close> still reinstates it.
\<close>

theorem collapse_restore_roundtrip:
  assumes "layout_ok L" and "0 \<le> i" and "i < m_cCount L"
  shows "(\<not> isCollapsed (m_cols L ! nat i) \<longrightarrow>
            size' (m_cols (RestoreColumn E' (CollapseColumn E L i) i) ! nat i)
              = size' (m_cols L ! nat i)
          \<and> \<not> isCollapsed (m_cols (RestoreColumn E' (CollapseColumn E L i) i) ! nat i))
       \<and> (isCollapsed (m_cols L ! nat i) \<longrightarrow>
            CollapseColumn E L i = L
          \<and> size' (m_cols (RestoreColumn E' (CollapseColumn E L i) i) ! nat i)
              = savedSize (m_cols L ! nat i))"
proof (intro conjI impI)
  have len: "i < int (length (m_cols L))"
    using assms by (simp add: layout_ok_def)
  {
    assume fresh: "\<not> isCollapsed (m_cols L ! nat i)"
    let ?L1 = "CollapseColumn E L i"
    note c = CollapseColumn_fresh [OF assms(2) assms(3) len fresh, of E]
    have a: "i < m_cCount ?L1" using c(4) assms(3) by simp
    have b: "i < int (length (m_cols ?L1))" using c(5) len by simp
    note r = RestoreColumn_collapsed [OF assms(2) a b c(3), of E']
    show "size' (m_cols (RestoreColumn E' ?L1 i) ! nat i) = size' (m_cols L ! nat i)"
      using r(1) c(2) by simp
    show "\<not> isCollapsed (m_cols (RestoreColumn E' ?L1 i) ! nat i)"
      by (rule r(2))
  }
  {
    assume coll: "isCollapsed (m_cols L ! nat i)"
    show same: "CollapseColumn E L i = L"
      using assms coll by (simp add: CollapseColumn_def Let_def)
    show "size' (m_cols (RestoreColumn E' (CollapseColumn E L i) i) ! nat i)
            = savedSize (m_cols L ! nat i)"
      unfolding same
      by (rule RestoreColumn_collapsed(1) [OF assms(2) assms(3) len coll])
  }
qed

lemma f32_1: "f32 1 = 1" by code_simp
lemma f32_210: "f32 210 = 210" by code_simp

lemma int_of_float_of_int:
  "- 2147483648 \<le> n \<Longrightarrow> n \<le> 2147483647 \<Longrightarrow> int_of_float (of_int n) = n"
  by (simp add: int_of_float_def cast_in_range_def float_trunc_def)

lemma Scale_96_30: "Scale 96 30 = 30" by code_simp
lemma Scale_96_60: "Scale 96 60 = 60" by code_simp

lemma fill_share_210: "int_of_float (float_div (float_mul (float_of_int 210) 1) (float_add 0 1)) = 210"
proof -
  have "float_add 0 1 = 1" by (simp add: float_add_def f32_1)
  moreover have "float_of_int 210 = 210" by (simp add: float_of_int_def f32_210)
  moreover have "float_mul 210 1 = 210" by (simp add: float_mul_def f32_210)
  moreover have "float_div 210 1 = 210" by (simp add: float_div_def f32_210)
  moreover have "int_of_float 210 = 210" using int_of_float_of_int [of 210] by simp
  ultimately show ?thesis by simp
qed

lemma float_add_0_1_pos: "0 < float_add 0 1"
  by (simp add: float_add_def f32_1)

text \<open>
  C4. Three tracks declared \<open>Fixed(30)\<close>, \<open>Fill(1)\<close>, \<open>Fixed(60)\<close>, without
  splitters and with minimums that do not exceed 30, 210 and 60 pixels, in an extent of 300
  pixels at 96 DPI: the solver resolves the sizes 30, 210, 60 and the positions 0, 30, 240,
  on the rows and on the columns of \<open>Arrange\<close> alike.
\<close>

theorem arrange_fixed_fill_fixed:
  assumes sizes: "map size' dims = [WidgetSize_Fixed 30, WidgetSize_Fill 1, WidgetSize_Fixed 60]"
    and nosplit: "\<forall>d \<in> set dims. \<not> splitter d"
    and m0: "minPx E 300 (min' (dims ! 0)) \<le> 30"
    and m1: "minPx E 300 (min' (dims ! 1)) \<le> 210"
    and m2: "minPx E 300 (min' (dims ! 2)) \<le> 60"
    and dpi: "dpi E = 96"
  shows "map actual (solve E dims 300 0) = [30, 210, 60]
       \<and> map pos (solve E dims 300 0) = [0, 30, 240]
       \<and> map actual (m_rows (Arrange E (L\<lparr>m_rows := dims\<rparr>) x 0 w 300)) = [30, 210, 60]
       \<and> map pos (m_rows (Arrange E (L\<lparr>m_rows := dims\<rparr>) x 0 w 300)) = [0, 30, 240]
       \<and> map actual (m_cols (Arrange E (L\<lparr>m_cols := dims\<rparr>) 0 y 300 h)) = [30, 210, 60]
       \<and> map pos (m_cols (Arrange E (L\<lparr>m_cols := dims\<rparr>) 0 y 300 h)) = [0, 30, 240]"
proof -
  from sizes obtain d0 d1 d2 where dims: "dims = [d0, d1, d2]"
    and s0: "size' d0 = WidgetSize_Fixed 30"
    and s1: "size' d1 = WidgetSize_Fill 1"
    and s2: "size' d2 = WidgetSize_Fixed 60"
    by (auto simp: map_eq_Cons_conv)
  have sp: "\<not> splitter d0" "\<not> splitter d1" "\<not> splitter d2"
    using nosplit dims by simp_all
  have u: "unit (size' d0) = Pixels" "value (size' d0) = 30"
          "unit (size' d1) = Fill" "value (size' d1) = 1"
          "unit (size' d2) = Pixels" "value (size' d2) = 60"
    by (simp_all add: s0 s1 s2 WidgetSize_Fixed_def WidgetSize_Fill_def)
  have i30: "int_of_float 30 = 30" using int_of_float_of_int [of 30] by simp
  have i60: "int_of_float 60 = 60" using int_of_float_of_int [of 60] by simp
  have a0: "max (Scale (dpi E) (int_of_float 30)) (minPx E 300 (min' d0)) = 30"
    using m0 dims by (simp add: dpi i30 Scale_96_30)
  have a2: "max (Scale (dpi E) (int_of_float 60)) (minPx E 300 (min' d2)) = 60"
    using m2 dims by (simp add: dpi i60 Scale_96_60)
  have a1: "max (int_of_float (float_div (float_mul (float_of_int 210) 1) (float_add 0 1)))
              (minPx E 300 (min' d1)) = 210"
    using m1 dims by (simp add: fill_share_210)
  have prim: "solve_primary E 300 dims 300 0 =
                ([d0\<lparr>actual := 30\<rparr>, d1\<lparr>actual := 0\<rparr>, d2\<lparr>actual := 60\<rparr>], 210, float_add 0 1)"
    by (simp add: dims Let_def sp u a0 a2)
  have fill: "map (solve_fill_one E 300 210 (float_add 0 1))
                [d0\<lparr>actual := 30\<rparr>, d1\<lparr>actual := 0\<rparr>, d2\<lparr>actual := 60\<rparr>]
              = [d0\<lparr>actual := 30\<rparr>, d1\<lparr>actual := 210\<rparr>, d2\<lparr>actual := 60\<rparr>]"
    by (simp add: solve_fill_one_def u a1)
  have sol: "solve E dims 300 0 =
               [d0\<lparr>actual := 30, pos := 0\<rparr>, d1\<lparr>actual := 210, pos := 30\<rparr>,
                d2\<lparr>actual := 60, pos := 240\<rparr>]"
  proof -
    have "solve E dims 300 0 =
            solve_positions E 0
              (map (solve_fill_one E 300 210 (float_add 0 1))
                 [d0\<lparr>actual := 30\<rparr>, d1\<lparr>actual := 0\<rparr>, d2\<lparr>actual := 60\<rparr>])"
      unfolding solve_def prim by (simp only: prod.case float_add_0_1_pos if_True)
    also have "\<dots> = solve_positions E 0
              [d0\<lparr>actual := 30\<rparr>, d1\<lparr>actual := 210\<rparr>, d2\<lparr>actual := 60\<rparr>]"
      by (simp only: fill)
    also have "\<dots> = [d0\<lparr>actual := 30, pos := 0\<rparr>, d1\<lparr>actual := 210, pos := 30\<rparr>,
                d2\<lparr>actual := 60, pos := 240\<rparr>]"
      by (simp add: sp)
    finally show ?thesis .
  qed
  have A: "map actual (solve E dims 300 0) = [30, 210, 60]"
    by (simp add: sol)
  have P: "map pos (solve E dims 300 0) = [0, 30, 240]"
    by (simp add: sol)
  have R: "m_rows (Arrange E (L\<lparr>m_rows := dims\<rparr>) x 0 w 300) = solve E dims 300 0"
    by (simp add: Arrange_def)
  have C: "m_cols (Arrange E (L\<lparr>m_cols := dims\<rparr>) 0 y 300 h) = solve E dims 300 0"
    by (simp add: Arrange_def)
  show ?thesis
    unfolding R C using A P by simp
qed

lemma Scale_96: "- 2147483648 \<le> px \<Longrightarrow> px \<le> 2147483647 \<Longrightarrow> Scale 96 px = px"
  unfolding Scale_def MulDiv_def Let_def by (auto simp: abs_if)

lemma minPx_Fixed_96:
  "- 2147483648 \<le> n \<Longrightarrow> n \<le> 2147483647 \<Longrightarrow>
     minPx \<lparr>dpi = 96, cyCaption = c\<rparr> tot (WidgetSize_Fixed (of_int n)) = n"
  by (simp add: minPx_def WidgetSize_Fixed_def int_of_float_of_int Scale_96)

text \<open>The three tracks with the minimums \<open>Fixed(0)\<close>, \<open>Fixed(20)\<close>, \<open>Fixed(0)\<close>.\<close>

theorem arrange_fixed_fill_fixed_witness:
  "map actual
     (solve \<lparr>dpi = 96, cyCaption = 23\<rparr>
        [DimPlan_init (WidgetSize_Fixed 30) (WidgetSize_Fixed 0),
         DimPlan_init (WidgetSize_Fill 1) (WidgetSize_Fixed 20),
         DimPlan_init (WidgetSize_Fixed 60) (WidgetSize_Fixed 0)] 300 0) = [30, 210, 60]
   \<and> map pos
     (solve \<lparr>dpi = 96, cyCaption = 23\<rparr>
        [DimPlan_init (WidgetSize_Fixed 30) (WidgetSize_Fixed 0),
         DimPlan_init (WidgetSize_Fill 1) (WidgetSize_Fixed 20),
         DimPlan_init (WidgetSize_Fixed 60) (WidgetSize_Fixed 0)] 300 0) = [0, 30, 240]"
proof -
  let ?E = "\<lparr>dpi = 96, cyCaption = 23\<rparr>"
  let ?dims = "[DimPlan_init (WidgetSize_Fixed 30) (WidgetSize_Fixed 0),
         DimPlan_init (WidgetSize_Fill 1) (WidgetSize_Fixed 20),
         DimPlan_init (WidgetSize_Fixed 60) (WidgetSize_Fixed 0)]"
  have a: "map size' ?dims = [WidgetSize_Fixed 30, WidgetSize_Fill 1, WidgetSize_Fixed 60]"
    by (simp add: DimPlan_init_def)
  have b: "\<forall>d \<in> set ?dims. \<not> splitter d"
    by (simp add: DimPlan_init_def)
  have z: "minPx ?E 300 (WidgetSize_Fixed 0) = 0"
    using minPx_Fixed_96 [of 0 23 300] by simp
  have t: "minPx ?E 300 (WidgetSize_Fixed 20) = 20"
    using minPx_Fixed_96 [of 20 23 300] by simp
  have c: "minPx ?E 300 (min' (?dims ! 0)) \<le> 30"
    by (simp add: DimPlan_init_def z)
  have d: "minPx ?E 300 (min' (?dims ! 1)) \<le> 210"
    by (simp add: DimPlan_init_def t)
  have e: "minPx ?E 300 (min' (?dims ! 2)) \<le> 60"
    by (simp add: DimPlan_init_def z)
  have f: "dpi ?E = 96"
    by simp
  from arrange_fixed_fill_fixed [OF a b c d e f] show ?thesis
    by blast
qed

lemma layout_ok_new: "0 \<le> r \<Longrightarrow> 0 \<le> c \<Longrightarrow> layout_ok (LayoutImpl_new r c)"
  by (simp add: layout_ok_def LayoutImpl_new_def)

lemma layout_ok_Arrange: "layout_ok L \<Longrightarrow> layout_ok (Arrange E L x y w h)"
  by (simp add: layout_ok_def Arrange_def solve_length)

lemma layout_ok_RefreshLayout: "layout_ok L \<Longrightarrow> layout_ok (RefreshLayout E L)"
  by (simp add: RefreshLayout_def layout_ok_Arrange)

lemma layout_ok_cols_update:
  "layout_ok L \<Longrightarrow> layout_ok (L\<lparr>m_cols := (m_cols L)[n := d]\<rparr>)"
  by (simp add: layout_ok_def)

lemma layout_ok_CollapseColumn: "layout_ok L \<Longrightarrow> layout_ok (CollapseColumn E L i)"
  by (simp add: CollapseColumn_def Let_def layout_ok_RefreshLayout layout_ok_cols_update)

lemma layout_ok_RestoreColumn: "layout_ok L \<Longrightarrow> layout_ok (RestoreColumn E L i)"
  by (simp add: RestoreColumn_def Let_def layout_ok_RefreshLayout layout_ok_cols_update)

text \<open>
  The second column of a fresh layout of one row and two columns, collapsed once and
  collapsed twice.
\<close>

theorem collapse_restore_roundtrip_witness:
  "size' (m_cols (RestoreColumn \<lparr>dpi = 96, cyCaption = 23\<rparr>
                   (CollapseColumn \<lparr>dpi = 96, cyCaption = 23\<rparr> (LayoutImpl_new 1 2) 1) 1) ! nat 1)
     = WidgetSize_Fill 1
   \<and> CollapseColumn \<lparr>dpi = 96, cyCaption = 23\<rparr>
        (CollapseColumn \<lparr>dpi = 96, cyCaption = 23\<rparr> (LayoutImpl_new 1 2) 1) 1
     = CollapseColumn \<lparr>dpi = 96, cyCaption = 23\<rparr> (LayoutImpl_new 1 2) 1
   \<and> size' (m_cols (RestoreColumn \<lparr>dpi = 96, cyCaption = 23\<rparr>
                   (CollapseColumn \<lparr>dpi = 96, cyCaption = 23\<rparr>
                      (CollapseColumn \<lparr>dpi = 96, cyCaption = 23\<rparr> (LayoutImpl_new 1 2) 1) 1) 1) ! nat 1)
     = WidgetSize_Fill 1"
proof -
  let ?E = "\<lparr>dpi = 96, cyCaption = 23\<rparr>"
  let ?L = "LayoutImpl_new 1 2"
  let ?C = "CollapseColumn ?E ?L 1"
  have ok: "layout_ok ?L"
    by (simp add: layout_ok_new)
  have i0: "(0::int) \<le> 1"
    by simp
  have i1: "1 < m_cCount ?L"
    by (simp add: LayoutImpl_new_def)
  have len: "1 < int (length (m_cols ?L))"
    by (simp add: LayoutImpl_new_def)
  have fresh: "\<not> isCollapsed (m_cols ?L ! nat 1)"
    by (simp add: LayoutImpl_new_def DimPlan_init_def)
  have sz: "size' (m_cols ?L ! nat 1) = WidgetSize_Fill 1"
    by (simp add: LayoutImpl_new_def DimPlan_init_def)
  note T1 = collapse_restore_roundtrip [OF ok i0 i1, of ?E ?E]
  from T1 fresh
  have "size' (m_cols (RestoreColumn ?E ?C 1) ! nat 1) = size' (m_cols ?L ! nat 1)"
    by blast
  with sz have 1: "size' (m_cols (RestoreColumn ?E ?C 1) ! nat 1) = WidgetSize_Fill 1"
    by (simp only:)
  have okC: "layout_ok ?C"
    using ok by (rule layout_ok_CollapseColumn)
  have i1C: "1 < m_cCount ?C"
    using CollapseColumn_fresh(4) [OF i0 i1 len fresh, of ?E] i1 by simp
  have collC: "isCollapsed (m_cols ?C ! nat 1)"
    by (rule CollapseColumn_fresh(3) [OF i0 i1 len fresh])
  have saved: "savedSize (m_cols ?C ! nat 1) = WidgetSize_Fill 1"
    using CollapseColumn_fresh(2) [OF i0 i1 len fresh, of ?E] sz by simp
  note T2 = collapse_restore_roundtrip [OF okC i0 i1C, of ?E ?E]
  from T2 collC have 2: "CollapseColumn ?E ?C 1 = ?C"
    by blast
  from T2 collC
  have "size' (m_cols (RestoreColumn ?E (CollapseColumn ?E ?C 1) 1) ! nat 1)
          = savedSize (m_cols ?C ! nat 1)"
    by blast
  with saved
  have 3: "size' (m_cols (RestoreColumn ?E (CollapseColumn ?E ?C 1) 1) ! nat 1) = WidgetSize_Fill 1"
    by (simp only:)
  from 1 2 3 show ?thesis by blast
qed

subsection \<open>Cell lookup\<close>

lemma GetCell_name_unknown:
  "named_cells L name = None \<Longrightarrow> GetCell_name L name = Inr (None, L)"
  by (simp add: GetCell_name_def)

text \<open>
  C8. \<open>GetCell(int, int)\<close> reads \<open>m_cells[r * m_cCount + c]\<close> without comparing
  the row and the column with the counts. In a layout of two rows and two columns the
  column index 2 of row 0 is out of range, and the call returns the cell of row 1, column 0
  instead of a null pointer; in a layout of one cell the row index 5 reads outside the
  vector. A name that was never registered does give a null pointer and leaves the layout
  as it was (\<open>GetCell_name_unknown\<close>).
\<close>

theorem GetCell_unchecked_index:
  "GetCell (LayoutImpl_new 2 2) 0 2 = GetCell (LayoutImpl_new 2 2) 1 0
   \<and> \<not> isl (GetCell (LayoutImpl_new 2 2) 0 2)
   \<and> fst (projr (GetCell (LayoutImpl_new 2 2) 0 2)) = Some 2
   \<and> GetCell (LayoutImpl_new 1 1) 5 0 = Inl OutOfBounds"
  by (simp add: GetCell_def LayoutImpl_new_def Let_def)

subsection \<open>Splitter drag\<close>




lemma RECT_rebuild:
  "\<lparr>left = left R, top' = top' R, right = left R + (right R - left R),
    bottom = top' R + (bottom R - top' R)\<rparr> = (R::RECT)"
  by simp








subsection \<open>Command-bar overflow\<close>

lemma measure_loop_skip:
  "Some (wid w) = btn \<Longrightarrow>
     measure_loop stof dpiv btn a allow (w # ws) u vis ov =
     measure_loop stof dpiv btn a allow ws u vis ov"
  by simp

lemma measure_loop_fresh:
  "Some (wid w) \<noteq> btn \<Longrightarrow>
     measure_loop stof dpiv btn a allow (w # ws) u vis [] =
       (if fits_bar dpiv a allow u (widgetWidth stof dpiv a w)
          then measure_loop stof dpiv btn a allow ws
                 (u + (widgetWidth stof dpiv a w + Scale dpiv 4)) (vis @ [w]) []
        else if allow then measure_loop stof dpiv btn a allow ws u vis [w]
        else measure_loop stof dpiv btn a allow ws u vis [])"
  by (simp add: Let_def fits_bar_def)

lemma measure_loop_over:
  "Some (wid w) \<noteq> btn \<Longrightarrow> ov \<noteq> [] \<Longrightarrow>
     measure_loop stof dpiv btn a allow (w # ws) u vis ov =
       (if allow then measure_loop stof dpiv btn a allow ws u vis (ov @ [w])
        else measure_loop stof dpiv btn a allow ws u vis ov)"
  by (simp add: Let_def)


declare measure_loop.simps(2) [simp del]

lemma measure_loop_overflowing:
  "ov \<noteq> [] \<Longrightarrow>
     measure_loop stof dpiv btn a True ws u vis ov = (vis, ov @ bar_candidates btn ws)"
proof (induction ws arbitrary: ov)
  case Nil
  show ?case by (simp add: bar_candidates_def)
next
  case (Cons w ws)
  show ?case
  proof (cases "Some (wid w) = btn")
    case True
    then show ?thesis
      using Cons.IH [OF Cons.prems] by (simp add: bar_candidates_def measure_loop_skip)
  next
    case False
    have "measure_loop stof dpiv btn a True (w # ws) u vis ov =
            measure_loop stof dpiv btn a True ws u vis (ov @ [w])"
      using False Cons.prems by (simp add: measure_loop_over)
    also have "\<dots> = (vis, (ov @ [w]) @ bar_candidates btn ws)"
      by (rule Cons.IH) simp
    finally show ?thesis
      using False by (simp add: bar_candidates_def)
  qed
qed

lemma measure_loop_split:
  "\<exists>pre post. measure_loop stof dpiv btn a True ws u vis [] = (vis @ pre, post)
               \<and> pre @ post = bar_candidates btn ws"
proof (induction ws arbitrary: u vis)
  case Nil
  show ?case by (simp add: bar_candidates_def)
next
  case (Cons w ws)
  show ?case
  proof (cases "Some (wid w) = btn")
    case True
    then show ?thesis
      using Cons.IH [of u vis] by (simp add: bar_candidates_def measure_loop_skip)
  next
    case False
    note nb = this
    show ?thesis
    proof (cases "fits_bar dpiv a True u (widgetWidth stof dpiv a w)")
      case True
      from Cons.IH [of "u + (widgetWidth stof dpiv a w + Scale dpiv 4)" "vis @ [w]"]
      obtain pre post where
        m: "measure_loop stof dpiv btn a True ws
              (u + (widgetWidth stof dpiv a w + Scale dpiv 4)) (vis @ [w]) [] =
            ((vis @ [w]) @ pre, post)"
        and c: "pre @ post = bar_candidates btn ws"
        by blast
      have "measure_loop stof dpiv btn a True (w # ws) u vis [] = (vis @ (w # pre), post)"
        using nb True m by (simp add: measure_loop_fresh)
      moreover have "(w # pre) @ post = bar_candidates btn (w # ws)"
        using nb c by (simp add: bar_candidates_def)
      ultimately show ?thesis by blast
    next
      case False
      have "measure_loop stof dpiv btn a True (w # ws) u vis [] =
              measure_loop stof dpiv btn a True ws u vis [w]"
        using nb False by (simp add: measure_loop_fresh)
      also have "\<dots> = (vis, [w] @ bar_candidates btn ws)"
        by (rule measure_loop_overflowing) simp
      finally have "measure_loop stof dpiv btn a True (w # ws) u vis [] =
                      (vis @ [], bar_candidates btn (w # ws))"
        using nb by (simp add: bar_candidates_def)
      then show ?thesis by blast
    qed
  qed
qed

lemma measure_loop_overflow_bound:
  "length (snd (measure_loop stof dpiv btn a True ws u vis [])) \<le> length (bar_candidates btn ws)"
proof -
  from measure_loop_split [of stof dpiv btn a ws u vis]
  obtain pre post where "measure_loop stof dpiv btn a True ws u vis [] = (vis @ pre, post)"
    and "pre @ post = bar_candidates btn ws"
    by blast
  then show ?thesis
    by (metis length_append le_add2 snd_conv)
qed

lemma measure_loop_no_overflow:
  "snd (measure_loop stof dpiv btn a False ws u vis ov) = ov"
proof (induction ws arbitrary: u vis)
  case Nil
  show ?case by simp
next
  case (Cons w ws)
  show ?case
  proof (cases "Some (wid w) = btn")
    case True
    then show ?thesis using Cons.IH by (simp add: measure_loop_skip)
  next
    case False
    show ?thesis
    proof (cases "ov = []")
      case True
      then show ?thesis
        using False Cons.IH by (simp add: measure_loop_fresh)
    next
      case ne: False
      then show ?thesis
        using False Cons.IH by (simp add: measure_loop_over)
    qed
  qed
qed

lemma fits_bar_mono:
  "a1 \<le> a2 \<Longrightarrow> fits_bar dpiv a1 allow u ww \<Longrightarrow> fits_bar dpiv a2 allow u ww"
  by (simp add: fits_bar_def split: if_splits)

lemma measure_loop_antitone:
  assumes "a1 \<le> a2"
    and "\<forall>w \<in> set ws. widgetWidth stof dpiv a1 w = widgetWidth stof dpiv a2 w"
  shows "length (snd (measure_loop stof dpiv btn a2 True ws u vis2 []))
           \<le> length (snd (measure_loop stof dpiv btn a1 True ws u vis1 []))"
  using assms(2)
proof (induction ws arbitrary: u vis1 vis2)
  case Nil
  show ?case by simp
next
  case (Cons w ws)
  have same: "widgetWidth stof dpiv a1 w = widgetWidth stof dpiv a2 w"
    using Cons.prems by simp
  have rest: "\<forall>w \<in> set ws. widgetWidth stof dpiv a1 w = widgetWidth stof dpiv a2 w"
    using Cons.prems by simp
  note IH = Cons.IH [OF rest]
  show ?case
  proof (cases "Some (wid w) = btn")
    case True
    then show ?thesis using IH by (simp add: measure_loop_skip)
  next
    case False
    note nb = this
    let ?ww = "widgetWidth stof dpiv a2 w"
    show ?thesis
    proof (cases "fits_bar dpiv a1 True u ?ww")
      case True
      then have f2: "fits_bar dpiv a2 True u ?ww"
        using assms(1) by (rule fits_bar_mono [rotated])
      show ?thesis
        using nb True f2 same IH [of "u + (?ww + Scale dpiv 4)" "vis2 @ [w]" "vis1 @ [w]"]
        by (simp add: measure_loop_fresh)
    next
      case False
      have l1: "measure_loop stof dpiv btn a1 True (w # ws) u vis1 [] =
                  (vis1, [w] @ bar_candidates btn ws)"
      proof -
        have "measure_loop stof dpiv btn a1 True (w # ws) u vis1 [] =
                measure_loop stof dpiv btn a1 True ws u vis1 [w]"
          using nb False same by (simp add: measure_loop_fresh)
        also have "\<dots> = (vis1, [w] @ bar_candidates btn ws)"
          by (rule measure_loop_overflowing) simp
        finally show ?thesis .
      qed
      have "length (snd (measure_loop stof dpiv btn a2 True (w # ws) u vis2 []))
              \<le> length (bar_candidates btn (w # ws))"
        by (rule measure_loop_overflow_bound)
      also have "\<dots> = length ([w] @ bar_candidates btn ws)"
        using nb by (simp add: bar_candidates_def)
      finally show ?thesis
        by (simp add: l1)
    qed
  qed
qed

lemma MeasureCommandBarWidgets_loop:
  "MeasureCommandBarWidgets stof dpiv C a allow =
     measure_loop stof dpiv (map_option wid (overflowButton C)) a allow (widgets C) 0 [] []"
  by (cases "widgets C") (simp_all add: MeasureCommandBarWidgets_def)

text \<open>
  C5. For a fixed widget list whose widths are the same at both available widths, a wider
  bar never has more widgets in the overflow set than a narrower one (and so a narrower one
  never fewer). With overflow allowed the visible widgets followed by the overflow set are
  the widgets in their order, so every widget after the first one that overflows is in the
  overflow set too; with overflow disallowed the overflow set is empty.
\<close>

theorem overflow_antitone:
  assumes "a1 \<le> a2"
    and "\<forall>w \<in> set (widgets C). widgetWidth stof dpiv a1 w = widgetWidth stof dpiv a2 w"
  shows "length (snd (MeasureCommandBarWidgets stof dpiv C a2 allow))
           \<le> length (snd (MeasureCommandBarWidgets stof dpiv C a1 allow))
       \<and> (allow \<longrightarrow>
            fst (MeasureCommandBarWidgets stof dpiv C a1 allow) @
            snd (MeasureCommandBarWidgets stof dpiv C a1 allow)
              = bar_candidates (map_option wid (overflowButton C)) (widgets C))
       \<and> (\<not> allow \<longrightarrow> snd (MeasureCommandBarWidgets stof dpiv C a1 allow) = [])"
proof (cases allow)
  case True
  let ?btn = "map_option wid (overflowButton C)"
  have 1: "length (snd (MeasureCommandBarWidgets stof dpiv C a2 True))
             \<le> length (snd (MeasureCommandBarWidgets stof dpiv C a1 True))"
    unfolding MeasureCommandBarWidgets_loop using assms by (rule measure_loop_antitone)
  from measure_loop_split [of stof dpiv ?btn a1 "widgets C" 0 "[]"]
  obtain pre post where
    m: "measure_loop stof dpiv ?btn a1 True (widgets C) 0 [] [] = ([] @ pre, post)"
    and c: "pre @ post = bar_candidates ?btn (widgets C)"
    by blast
  have 2: "fst (MeasureCommandBarWidgets stof dpiv C a1 True) @
           snd (MeasureCommandBarWidgets stof dpiv C a1 True) = bar_candidates ?btn (widgets C)"
    unfolding MeasureCommandBarWidgets_loop using m c by simp
  from 1 2 True show ?thesis by simp
next
  case False
  have "snd (MeasureCommandBarWidgets stof dpiv C a False) = []" for a
    unfolding MeasureCommandBarWidgets_loop by (rule measure_loop_no_overflow)
  with False show ?thesis by simp
qed

text \<open>
  Five widgets of the default width of 80 pixels: at 300 pixels the last two overflow, at
  400 pixels only the last.
\<close>

theorem overflow_antitone_witness:
  "map wid (snd (MeasureCommandBarWidgets (\<lambda>v. None) 96
          \<lparr>cnode = ContextNodeImpl ContextNode None Map.empty,
           widgets = [\<lparr>wid = 1, wnode = ContextNodeImpl (WidgetImpl False True (LiveWindow True)) None Map.empty\<rparr>,
                      \<lparr>wid = 2, wnode = ContextNodeImpl (WidgetImpl False True (LiveWindow True)) None Map.empty\<rparr>,
                      \<lparr>wid = 3, wnode = ContextNodeImpl (WidgetImpl False True (LiveWindow True)) None Map.empty\<rparr>,
                      \<lparr>wid = 4, wnode = ContextNodeImpl (WidgetImpl False True (LiveWindow True)) None Map.empty\<rparr>,
                      \<lparr>wid = 5, wnode = ContextNodeImpl (WidgetImpl False True (LiveWindow True)) None Map.empty\<rparr>],
           m_mode = CommandBar, overflowItems = [], overflowButton = None\<rparr> 300 True)) = [4, 5]
   \<and> map wid (snd (MeasureCommandBarWidgets (\<lambda>v. None) 96
          \<lparr>cnode = ContextNodeImpl ContextNode None Map.empty,
           widgets = [\<lparr>wid = 1, wnode = ContextNodeImpl (WidgetImpl False True (LiveWindow True)) None Map.empty\<rparr>,
                      \<lparr>wid = 2, wnode = ContextNodeImpl (WidgetImpl False True (LiveWindow True)) None Map.empty\<rparr>,
                      \<lparr>wid = 3, wnode = ContextNodeImpl (WidgetImpl False True (LiveWindow True)) None Map.empty\<rparr>,
                      \<lparr>wid = 4, wnode = ContextNodeImpl (WidgetImpl False True (LiveWindow True)) None Map.empty\<rparr>,
                      \<lparr>wid = 5, wnode = ContextNodeImpl (WidgetImpl False True (LiveWindow True)) None Map.empty\<rparr>],
           m_mode = CommandBar, overflowItems = [], overflowButton = None\<rparr> 400 True)) = [5]
   \<and> length (snd (MeasureCommandBarWidgets (\<lambda>v. None) 96
          \<lparr>cnode = ContextNodeImpl ContextNode None Map.empty,
           widgets = [\<lparr>wid = 1, wnode = ContextNodeImpl (WidgetImpl False True (LiveWindow True)) None Map.empty\<rparr>,
                      \<lparr>wid = 2, wnode = ContextNodeImpl (WidgetImpl False True (LiveWindow True)) None Map.empty\<rparr>,
                      \<lparr>wid = 3, wnode = ContextNodeImpl (WidgetImpl False True (LiveWindow True)) None Map.empty\<rparr>,
                      \<lparr>wid = 4, wnode = ContextNodeImpl (WidgetImpl False True (LiveWindow True)) None Map.empty\<rparr>,
                      \<lparr>wid = 5, wnode = ContextNodeImpl (WidgetImpl False True (LiveWindow True)) None Map.empty\<rparr>],
           m_mode = CommandBar, overflowItems = [], overflowButton = None\<rparr> 400 True))
     \<le> length (snd (MeasureCommandBarWidgets (\<lambda>v. None) 96
          \<lparr>cnode = ContextNodeImpl ContextNode None Map.empty,
           widgets = [\<lparr>wid = 1, wnode = ContextNodeImpl (WidgetImpl False True (LiveWindow True)) None Map.empty\<rparr>,
                      \<lparr>wid = 2, wnode = ContextNodeImpl (WidgetImpl False True (LiveWindow True)) None Map.empty\<rparr>,
                      \<lparr>wid = 3, wnode = ContextNodeImpl (WidgetImpl False True (LiveWindow True)) None Map.empty\<rparr>,
                      \<lparr>wid = 4, wnode = ContextNodeImpl (WidgetImpl False True (LiveWindow True)) None Map.empty\<rparr>,
                      \<lparr>wid = 5, wnode = ContextNodeImpl (WidgetImpl False True (LiveWindow True)) None Map.empty\<rparr>],
           m_mode = CommandBar, overflowItems = [], overflowButton = None\<rparr> 300 True))"
proof -
  let ?C = "\<lparr>cnode = ContextNodeImpl ContextNode None Map.empty,
           widgets = [\<lparr>wid = 1, wnode = ContextNodeImpl (WidgetImpl False True (LiveWindow True)) None Map.empty\<rparr>,
                      \<lparr>wid = 2, wnode = ContextNodeImpl (WidgetImpl False True (LiveWindow True)) None Map.empty\<rparr>,
                      \<lparr>wid = 3, wnode = ContextNodeImpl (WidgetImpl False True (LiveWindow True)) None Map.empty\<rparr>,
                      \<lparr>wid = 4, wnode = ContextNodeImpl (WidgetImpl False True (LiveWindow True)) None Map.empty\<rparr>,
                      \<lparr>wid = 5, wnode = ContextNodeImpl (WidgetImpl False True (LiveWindow True)) None Map.empty\<rparr>],
           m_mode = CommandBar, overflowItems = [], overflowButton = None\<rparr>"
  have a: "(300::int) \<le> 400"
    by simp
  have b: "\<forall>w \<in> set (widgets ?C).
             widgetWidth (\<lambda>v. None) 96 300 w = widgetWidth (\<lambda>v. None) 96 400 w"
    by (simp add: widgetWidth_def ParseCssDimension_def)
  have 1: "map wid (snd (MeasureCommandBarWidgets (\<lambda>v. None) 96 ?C 300 True)) = [4, 5]"
    by code_simp
  have 2: "map wid (snd (MeasureCommandBarWidgets (\<lambda>v. None) 96 ?C 400 True)) = [5]"
    by code_simp
  from overflow_antitone [OF a b, where allow = True]
  have 3: "length (snd (MeasureCommandBarWidgets (\<lambda>v. None) 96 ?C 400 True))
             \<le> length (snd (MeasureCommandBarWidgets (\<lambda>v. None) 96 ?C 300 True))"
    by blast
  from 1 2 3 show ?thesis by blast
qed

lemma fold_show_other:
  "x \<notin> wid ` set ws \<Longrightarrow> fold (\<lambda>w sh. sh(wid w := b)) ws sh x = sh x"
  by (induction ws arbitrary: sh) simp_all

lemma MeasureCommandBarWidgets_no_overflow:
  "snd (MeasureCommandBarWidgets stof dpiv C a False) = []"
  unfolding MeasureCommandBarWidgets_loop by (rule measure_loop_no_overflow)

lemma UpdateWidgets_CommandBar_overflow_false:
  assumes "GetProperty (cnode C) ''overflow'' [] = ''false''" and "widgets C \<noteq> []"
  shows "overflowItems (fst (UpdateWidgets_CommandBar stof dpiv newButton parentWidth C shown)) = []"
    and "overflowButton (fst (UpdateWidgets_CommandBar stof dpiv newButton parentWidth C shown)) = None"
    and "x \<notin> wid ` set (fst (MeasureCommandBarWidgets stof dpiv C parentWidth False)) \<Longrightarrow>
         Some x \<noteq> map_option wid (overflowButton C) \<Longrightarrow>
         snd (UpdateWidgets_CommandBar stof dpiv newButton parentWidth C shown) x = shown x"
proof -
  show "overflowItems (fst (UpdateWidgets_CommandBar stof dpiv newButton parentWidth C shown)) = []"
    using assms
    by (simp add: UpdateWidgets_CommandBar_def Let_def MeasureCommandBarWidgets_no_overflow)
  show "overflowButton (fst (UpdateWidgets_CommandBar stof dpiv newButton parentWidth C shown)) = None"
    using assms
    by (simp add: UpdateWidgets_CommandBar_def Let_def MeasureCommandBarWidgets_no_overflow)
  assume nv: "x \<notin> wid ` set (fst (MeasureCommandBarWidgets stof dpiv C parentWidth False))"
    and nb: "Some x \<noteq> map_option wid (overflowButton C)"
  show "snd (UpdateWidgets_CommandBar stof dpiv newButton parentWidth C shown) x = shown x"
    using assms nb
    by (cases "overflowButton C")
       (auto simp add: UpdateWidgets_CommandBar_def Let_def MeasureCommandBarWidgets_no_overflow
          fold_show_other [OF nv])
qed

text \<open>
  C10. With \<open>overflow\<close> set to \<open>false\<close> the overflow set stays empty, no
  overflow button is kept or created, and the fit test uses the full width
  (\<open>UpdateWidgets_CommandBar_overflow_false\<close>, \<open>measure_loop_fresh\<close>). A widget
  that does not fit is in neither list, but nothing hides it: \<open>UpdateWidgets\<close> hides
  the overflow widgets only. Three widgets of 80 pixels are laid out at a width of 300, where
  all three are shown, and then at a width of 200: the third widget is in neither list and
  its window is still shown.
\<close>

theorem overflow_false_leaves_window_shown:
  "snd (UpdateWidgets_CommandBar (\<lambda>v. None) 96 None 300
         \<lparr>cnode = ContextNodeImpl ContextNode None [''overflow'' \<mapsto> ''false''],
          widgets =
            [\<lparr>wid = 1, wnode = ContextNodeImpl (WidgetImpl False True (LiveWindow True)) (Some (ContextNodeImpl ContextNode None [''overflow'' \<mapsto> ''false''])) Map.empty\<rparr>,
             \<lparr>wid = 2, wnode = ContextNodeImpl (WidgetImpl False True (LiveWindow True)) (Some (ContextNodeImpl ContextNode None [''overflow'' \<mapsto> ''false''])) Map.empty\<rparr>,
             \<lparr>wid = 3, wnode = ContextNodeImpl (WidgetImpl False True (LiveWindow True)) (Some (ContextNodeImpl ContextNode None [''overflow'' \<mapsto> ''false''])) Map.empty\<rparr>],
          m_mode = CommandBar, overflowItems = [], overflowButton = None\<rparr>
         (\<lambda>w. False)) 3
   \<and> map wid (fst (MeasureCommandBarWidgets (\<lambda>v. None) 96
         (fst (UpdateWidgets_CommandBar (\<lambda>v. None) 96 None 300
         \<lparr>cnode = ContextNodeImpl ContextNode None [''overflow'' \<mapsto> ''false''],
          widgets =
            [\<lparr>wid = 1, wnode = ContextNodeImpl (WidgetImpl False True (LiveWindow True)) (Some (ContextNodeImpl ContextNode None [''overflow'' \<mapsto> ''false''])) Map.empty\<rparr>,
             \<lparr>wid = 2, wnode = ContextNodeImpl (WidgetImpl False True (LiveWindow True)) (Some (ContextNodeImpl ContextNode None [''overflow'' \<mapsto> ''false''])) Map.empty\<rparr>,
             \<lparr>wid = 3, wnode = ContextNodeImpl (WidgetImpl False True (LiveWindow True)) (Some (ContextNodeImpl ContextNode None [''overflow'' \<mapsto> ''false''])) Map.empty\<rparr>],
          m_mode = CommandBar, overflowItems = [], overflowButton = None\<rparr>
         (\<lambda>w. False))) 200 False)) = [1, 2]
   \<and> map wid (snd (MeasureCommandBarWidgets (\<lambda>v. None) 96
         (fst (UpdateWidgets_CommandBar (\<lambda>v. None) 96 None 300
         \<lparr>cnode = ContextNodeImpl ContextNode None [''overflow'' \<mapsto> ''false''],
          widgets =
            [\<lparr>wid = 1, wnode = ContextNodeImpl (WidgetImpl False True (LiveWindow True)) (Some (ContextNodeImpl ContextNode None [''overflow'' \<mapsto> ''false''])) Map.empty\<rparr>,
             \<lparr>wid = 2, wnode = ContextNodeImpl (WidgetImpl False True (LiveWindow True)) (Some (ContextNodeImpl ContextNode None [''overflow'' \<mapsto> ''false''])) Map.empty\<rparr>,
             \<lparr>wid = 3, wnode = ContextNodeImpl (WidgetImpl False True (LiveWindow True)) (Some (ContextNodeImpl ContextNode None [''overflow'' \<mapsto> ''false''])) Map.empty\<rparr>],
          m_mode = CommandBar, overflowItems = [], overflowButton = None\<rparr>
         (\<lambda>w. False))) 200 False)) = []
   \<and> snd (UpdateWidgets_CommandBar (\<lambda>v. None) 96 None 200
         (fst (UpdateWidgets_CommandBar (\<lambda>v. None) 96 None 300
         \<lparr>cnode = ContextNodeImpl ContextNode None [''overflow'' \<mapsto> ''false''],
          widgets =
            [\<lparr>wid = 1, wnode = ContextNodeImpl (WidgetImpl False True (LiveWindow True)) (Some (ContextNodeImpl ContextNode None [''overflow'' \<mapsto> ''false''])) Map.empty\<rparr>,
             \<lparr>wid = 2, wnode = ContextNodeImpl (WidgetImpl False True (LiveWindow True)) (Some (ContextNodeImpl ContextNode None [''overflow'' \<mapsto> ''false''])) Map.empty\<rparr>,
             \<lparr>wid = 3, wnode = ContextNodeImpl (WidgetImpl False True (LiveWindow True)) (Some (ContextNodeImpl ContextNode None [''overflow'' \<mapsto> ''false''])) Map.empty\<rparr>],
          m_mode = CommandBar, overflowItems = [], overflowButton = None\<rparr>
         (\<lambda>w. False)))
         (snd (UpdateWidgets_CommandBar (\<lambda>v. None) 96 None 300
         \<lparr>cnode = ContextNodeImpl ContextNode None [''overflow'' \<mapsto> ''false''],
          widgets =
            [\<lparr>wid = 1, wnode = ContextNodeImpl (WidgetImpl False True (LiveWindow True)) (Some (ContextNodeImpl ContextNode None [''overflow'' \<mapsto> ''false''])) Map.empty\<rparr>,
             \<lparr>wid = 2, wnode = ContextNodeImpl (WidgetImpl False True (LiveWindow True)) (Some (ContextNodeImpl ContextNode None [''overflow'' \<mapsto> ''false''])) Map.empty\<rparr>,
             \<lparr>wid = 3, wnode = ContextNodeImpl (WidgetImpl False True (LiveWindow True)) (Some (ContextNodeImpl ContextNode None [''overflow'' \<mapsto> ''false''])) Map.empty\<rparr>],
          m_mode = CommandBar, overflowItems = [], overflowButton = None\<rparr>
         (\<lambda>w. False)))) 3"
  by code_simp

end
